theory Spec2Isabelle
  imports Main "HOL-Library.Sublist" "HOL-Library.AList" "HOL-Library.Word"
    "HOL-Library.Signed_Division"
begin

unbundle bit_operations_syntax

section \<open>Strings\<close>

text \<open>
  A Go string is a sequence of bytes, here a \<open>string\<close>. The functions of Go's
  \<open>strings\<close> package that the program calls are written out with their documented
  meaning.
\<close>

definition backtick :: char where
  "backtick = CHR 0x60"

definition HasPrefix :: "string \<Rightarrow> string \<Rightarrow> bool" where
  "HasPrefix s p = prefix p s"

definition HasSuffix :: "string \<Rightarrow> string \<Rightarrow> bool" where
  "HasSuffix s p = suffix p s"

definition TrimPrefix :: "string \<Rightarrow> string \<Rightarrow> string" where
  "TrimPrefix s p = (if HasPrefix s p then drop (length p) s else s)"

definition TrimSuffix :: "string \<Rightarrow> string \<Rightarrow> string" where
  "TrimSuffix s p = (if HasSuffix s p then take (length s - length p) s else s)"

text \<open>\<open>strings.ReplaceAll\<close> where the old and the new text are one byte each, as in
  every call of it in the program.\<close>

definition ReplaceAll :: "string \<Rightarrow> char \<Rightarrow> char \<Rightarrow> string" where
  "ReplaceAll s old new = map (\<lambda>c. if c = old then new else c) s"

text \<open>\<open>strings.LastIndex\<close>: the index of the last instance of \<open>sub\<close> in \<open>s\<close>, or \<open>-1\<close>.\<close>

fun LastIndex :: "string \<Rightarrow> string \<Rightarrow> int" where
  "LastIndex [] sub = (if sub = [] then 0 else - 1)"
| "LastIndex (c # s) sub =
     (let r = LastIndex s sub
      in if 0 \<le> r then r + 1 else if prefix sub (c # s) then 0 else - 1)"

section \<open>Symbol names\<close>

definition extractSymbolName :: "string \<Rightarrow> string" where
  "extractSymbolName scipSymbol =
     (let lastTick = LastIndex scipSymbol [backtick]
      in if lastTick = - 1 then scipSymbol
         else
           let afterTick = drop (nat (lastTick + 1)) scipSymbol;
               afterTick = TrimPrefix afterTick ''/'';
               afterTick = TrimSuffix afterTick ''#'';
               afterTick = TrimSuffix afterTick ''.'';
               afterTick = TrimSuffix afterTick ''()''
           in afterTick)"

definition extractSymbolKey :: "string \<Rightarrow> string" where
  "extractSymbolKey scipSymbol =
     (let lastTick = LastIndex scipSymbol [backtick]
      in if lastTick = - 1 then scipSymbol
         else take (nat (lastTick + 1)) scipSymbol)"

section \<open>File names of a partition\<close>

definition sanitizeRepoID :: "string \<Rightarrow> string" where
  "sanitizeRepoID repoID =
     (let repoID = TrimPrefix repoID ''https://'';
          repoID = TrimPrefix repoID ''http://'';
          repoID = TrimPrefix repoID ''git@'';
          result = ReplaceAll repoID CHR ''/'' CHR ''_'';
          result = ReplaceAll result CHR ''.'' CHR ''_'';
          result = ReplaceAll result CHR '':'' CHR ''_'';
          result = ReplaceAll result CHR ''-'' CHR ''_''
      in result)"

text \<open>The name \<open>parseMain\<close> gives the file of one language partition
  (\<open>fmt.Sprintf("%s.%s.rst", sanitizedRepoID, lang)\<close>).\<close>

definition rstFilename :: "string \<Rightarrow> string \<Rightarrow> string" where
  "rstFilename repoID lang = sanitizeRepoID repoID @ ''.'' @ lang @ ''.rst''"

definition repoToRSTFile :: "string \<Rightarrow> string" where
  "repoToRSTFile repo =
     (let name = repo;
          name = ReplaceAll name CHR ''.'' CHR ''_'';
          name = ReplaceAll name CHR ''/'' CHR ''_''
      in name @ ''.go.rst'')"

definition rstFileToRepoName :: "string \<Rightarrow> string" where
  "rstFileToRepoName fileName =
     (let name = TrimSuffix fileName ''.go.rst'';
          name = ReplaceAll name CHR ''_'' CHR ''.''
      in name)"

section \<open>The SCIP index read by the builder\<close>

text \<open>
  The Go types of the upstream bindings, field by field as the builder reads them.
  \<open>int32\<close> is a 32-bit word; where the program compares two of them the comparison
  is the signed one.
\<close>

type_synonym int32 = "32 word"

type_synonym uint32 = "32 word"

datatype SymbolInformation_Kind =
    SymbolInformation_UnspecifiedKind
  | SymbolInformation_Function
  | SymbolInformation_Method
  | SymbolInformation_Struct
  | SymbolInformation_Class
  | SymbolInformation_Interface
  | SymbolInformation_Constant
  | SymbolInformation_Field
  | SymbolInformation_TypeParameter
  | SymbolInformation_OtherKind nat

record SymbolInformation =
  si_Symbol :: string
  si_Documentation :: "string list"
  si_Kind :: SymbolInformation_Kind
  si_DisplayName :: string
  si_SignatureDocumentation :: "string option"
    \<comment> \<open>\<open>None\<close> is the nil pointer, \<open>Some text\<close> the \<open>Text\<close> of the document\<close>

record Occurrence =
  occ_Range :: "int32 list"
  occ_Symbol :: string
  occ_SymbolRoles :: int32
  occ_EnclosingRange :: "int32 list"

record Document =
  doc_Language :: string
  doc_RelativePath :: string
  doc_Occurrences :: "Occurrence list"
  doc_Symbols :: "SymbolInformation list"

text \<open>
  What the program takes from the \<open>scip\<close> package without defining it: the predicate
  of local symbols, the two role masks and the name of a kind (the generated
  \<open>String\<close> method). They are parameters of the model.
\<close>

record scip =
  IsLocalSymbol :: "string \<Rightarrow> bool"
  SymbolRole_Definition :: int32
  SymbolRole_ForwardDefinition :: int32
  Kind_String :: "SymbolInformation_Kind \<Rightarrow> string"

section \<open>The relation symbol table\<close>

record rst_Symbol =
  Symbol :: string
  Kind :: string
  Signature :: string
  Line :: int32
  Code :: string
  DependenceOn :: "string list"
  ReferenceBy :: "string list"

text \<open>
  A Go map is an association list with one pair per key: \<open>map_of\<close> reads a key,
  \<open>AList.update\<close> stores one, and the order of the pairs is the order in which a
  \<open>range\<close> loop happens to visit them, which Go leaves open.
\<close>

record rst_Document =
  RelativePath :: string
  Symbols :: "(string \<times> rst_Symbol) list"

record rst_Metadata =
  Repo :: string
  Language :: string

record rst_RST =
  Metadata :: rst_Metadata
  Documents :: "(string \<times> rst_Document) list"

section \<open>The host: files, paths, the parser and the codec\<close>

text \<open>A node of the syntax tree: its type, the rows and bytes it spans, its children.\<close>

datatype Node =
  Node (node_Type: string) (StartRow: uint32) (EndRow: uint32)
       (StartByte: uint32) (EndByte: uint32) (Children: "Node list")

text \<open>An entry of a directory listing (\<open>os.DirEntry\<close>): its name and whether it is a
  directory.\<close>

record DirEntry =
  entry_Name :: string
  entry_IsDir :: bool

record host =
  ReadFile :: "string \<Rightarrow> string option"  \<comment> \<open>\<open>os.ReadFile\<close>, \<open>None\<close> when it fails\<close>
  Stat :: "string \<Rightarrow> bool"  \<comment> \<open>\<open>os.Stat\<close> returns no error\<close>
  Join :: "string \<Rightarrow> string \<Rightarrow> string"  \<comment> \<open>\<open>filepath.Join\<close>\<close>
  IsAbs :: "string \<Rightarrow> bool"  \<comment> \<open>\<open>filepath.IsAbs\<close>\<close>
  Parse :: "string \<Rightarrow> Node option"
    \<comment> \<open>\<open>sitter.Parse\<close> with the Go grammar, \<open>None\<close> for a nil root\<close>
  Unmarshal :: "string \<Rightarrow> rst_RST option"  \<comment> \<open>\<open>proto.Unmarshal\<close>, \<open>None\<close> when it fails\<close>
  ReadDir :: "string \<Rightarrow> DirEntry list option"  \<comment> \<open>\<open>os.ReadDir\<close>, \<open>None\<close> when it fails\<close>

datatype panic = IndexOutOfRange | SliceBoundsOutOfRange | InterfaceConversion

datatype error =
    ReadFailed
  | UnmarshalFailed
  | FileNotFound string
  | SymbolNotFound string

section \<open>Body extraction\<close>

definition codeBlockNodeTypes :: "(string \<times> string list) list" where
  "codeBlockNodeTypes =
     [(''go'', [''function_declaration'', ''method_declaration'',
                ''type_declaration'', ''type_spec'']),
      (''typescript'', [''function_declaration'', ''function_expression'', ''arrow_function'',
                ''method_definition'', ''generator_function'',
                ''class_declaration'', ''interface_declaration'', ''type_alias_declaration'']),
      (''javascript'', [''function_declaration'', ''function_expression'', ''arrow_function'',
                ''method_definition'', ''generator_function'', ''class_declaration'']),
      (''python'', [''function_definition'', ''class_definition'']),
      (''rust'', [''function_item'', ''struct_item'', ''enum_item'', ''impl_item'', ''trait_item'']),
      (''java'', [''method_declaration'', ''constructor_declaration'',
                ''class_declaration'', ''interface_declaration'', ''enum_declaration'']),
      (''c'', [''function_definition'', ''method_definition'',
                ''struct_specifier'', ''enum_specifier'']),
      (''cpp'', [''function_definition'', ''method_definition'',
                ''struct_specifier'', ''class_specifier'', ''enum_specifier''])]"

text \<open>\<open>dfsWalk\<close> calls \<open>fn\<close> on the node, then walks the children in order. The
  callback writes a variable of its caller, so it is a state transformer here.\<close>

fun dfsWalk :: "Node \<Rightarrow> (Node \<Rightarrow> 's \<Rightarrow> 's) \<Rightarrow> 's \<Rightarrow> 's" where
  "dfsWalk (Node t sr er sb eb cs) fn s =
     fold (\<lambda>c. dfsWalk c fn) cs (fn (Node t sr er sb eb cs) s)"

text \<open>The table of the language, the Go one for a language that has none.\<close>

definition nodeTypesFor :: "string \<Rightarrow> string list" where
  "nodeTypesFor lang =
     (case map_of codeBlockNodeTypes lang of
        Some nodeTypes \<Rightarrow> nodeTypes
      | None \<Rightarrow> the (map_of codeBlockNodeTypes ''go''))"

text \<open>The callback of \<open>treeSitterExtractCode\<close>; the state is \<open>codeNode\<close>.\<close>

definition recordMatch :: "string list \<Rightarrow> uint32 \<Rightarrow> Node \<Rightarrow> Node option \<Rightarrow> Node option" where
  "recordMatch nodeTypes targetLine n codeNode =
     (if node_Type n \<in> set nodeTypes then
        (let start = StartRow n + 1; end' = EndRow n + 1
         in if start \<le> targetLine \<and> targetLine \<le> end' then Some n else codeNode)
      else codeNode)"

text \<open>\<open>sourceCode[start:end]\<close> panics unless \<open>start \<le> end \<le> len(sourceCode)\<close>.\<close>

definition slice :: "string \<Rightarrow> nat \<Rightarrow> nat \<Rightarrow> panic + string" where
  "slice s lo hi =
     (if lo \<le> hi \<and> hi \<le> length s then Inr (take (hi - lo) (drop lo s))
      else Inl SliceBoundsOutOfRange)"

definition treeSitterExtractCode :: "host \<Rightarrow> string \<Rightarrow> int32 \<Rightarrow> string \<Rightarrow> panic + string" where
  "treeSitterExtractCode h sourceFile line lang =
     (case ReadFile h sourceFile of
        None \<Rightarrow> Inr ''''
      | Some sourceCode \<Rightarrow>
          (case Parse h sourceCode of
             None \<Rightarrow> Inr ''''
           | Some root \<Rightarrow>
               (let nodeTypes = nodeTypesFor lang;
                    targetLine = line
                in case dfsWalk root (recordMatch nodeTypes targetLine) None of
                     None \<Rightarrow> Inr ''''
                   | Some codeNode \<Rightarrow>
                       slice sourceCode (unat (StartByte codeNode)) (unat (EndByte codeNode)))))"

section \<open>The builder\<close>

definition inferKindFromRoles :: "scip \<Rightarrow> int32 \<Rightarrow> string" where
  "inferKindFromRoles sc roles =
     (let isDefinition = word_sless 0 (roles AND SymbolRole_Definition sc);
          isForwardDefinition = word_sless 0 (roles AND SymbolRole_ForwardDefinition sc)
      in if isDefinition \<or> isForwardDefinition then ''FUNC'' else '''')"

definition isCodeExtractableKind :: "string \<Rightarrow> bool" where
  "isCodeExtractableKind kind =
     (kind = ''Function'' \<or> kind = ''Method'' \<or> kind = ''FUNC'' \<or>
      kind = ''Constructor'' \<or> kind = ''Destructor'')"

text \<open>The opening and the closing fence of a Go code block in a documentation string.\<close>

definition fenceOpen :: string where
  "fenceOpen = [backtick, backtick, backtick, CHR ''g'', CHR ''o'', CHR 0x0A]"

definition fenceClose :: string where
  "fenceClose = [CHR 0x0A, backtick, backtick, backtick]"

text \<open>The loop of \<open>buildSignature\<close> over the documentation strings: the first string
  between the two fences decides, and \<open>doc[6 : len(doc)-4]\<close> panics when the fences
  overlap.\<close>

fun firstCodeBlock :: "string list \<Rightarrow> (panic + string) option" where
  "firstCodeBlock [] = None"
| "firstCodeBlock (doc # docs) =
     (if HasPrefix doc fenceOpen \<and> HasSuffix doc fenceClose
      then Some (slice doc 6 (length doc - 4))
      else firstCodeBlock docs)"

definition kindPrefix :: "SymbolInformation_Kind \<Rightarrow> string" where
  "kindPrefix k =
     (case k of
        SymbolInformation_Function \<Rightarrow> ''func ''
      | SymbolInformation_Method \<Rightarrow> ''func ''
      | SymbolInformation_Struct \<Rightarrow> ''type ''
      | SymbolInformation_Class \<Rightarrow> ''class ''
      | SymbolInformation_Interface \<Rightarrow> ''interface ''
      | SymbolInformation_Constant \<Rightarrow> ''const ''
      | SymbolInformation_Field \<Rightarrow> ''''
      | SymbolInformation_TypeParameter \<Rightarrow> ''''
      | _ \<Rightarrow> '''')"

definition buildSignature :: "SymbolInformation \<Rightarrow> panic + string" where
  "buildSignature sinfo =
     (if si_SignatureDocumentation sinfo \<noteq> None \<and> the (si_SignatureDocumentation sinfo) \<noteq> ''''
      then Inr (the (si_SignatureDocumentation sinfo))
      else
        (case firstCodeBlock (si_Documentation sinfo) of
           Some content \<Rightarrow> content
         | None \<Rightarrow>
             (let kprefix = kindPrefix (si_Kind sinfo);
                  name = si_DisplayName sinfo;
                  name = (if name = '''' then extractSymbolName (si_Symbol sinfo) else name)
              in Inr (kprefix @ name))))"

subsection \<open>The occurrence index of a document\<close>

record occInfo =
  info_line :: int32
  info_kind :: string

definition recordOccurrence ::
  "scip \<Rightarrow> Occurrence \<Rightarrow> (string \<times> occInfo) list \<Rightarrow> (string \<times> occInfo) list" where
  "recordOccurrence sc occ occIndex =
     (if 0 < length (occ_Range occ) \<and> occ_Symbol occ \<noteq> '''' then
        (if map_of occIndex (occ_Symbol occ) = None then
           (let kind = inferKindFromRoles sc (occ_SymbolRoles occ)
            in AList.update (occ_Symbol occ)
                 \<lparr>info_line = occ_Range occ ! 0 + 1, info_kind = kind\<rparr> occIndex)
         else occIndex)
      else occIndex)"

definition buildOccIndex :: "scip \<Rightarrow> Occurrence list \<Rightarrow> (string \<times> occInfo) list" where
  "buildOccIndex sc occs = fold (recordOccurrence sc) occs []"

text \<open>Line and kind of a new symbol, from the occurrence index.\<close>

definition attachOccurrence :: "(string \<times> occInfo) list \<Rightarrow> rst_Symbol \<Rightarrow> rst_Symbol" where
  "attachOccurrence occIndex rstSym =
     (case map_of occIndex (Symbol rstSym) of
        Some info \<Rightarrow>
          (let rstSym = rstSym\<lparr>Line := info_line info\<rparr>
           in if Kind rstSym = ''UnspecifiedKind'' \<or> Kind rstSym = ''''
              then rstSym\<lparr>Kind := info_kind info\<rparr> else rstSym)
      | None \<Rightarrow> rstSym)"

definition attachCode :: "host \<Rightarrow> string \<Rightarrow> Document \<Rightarrow> rst_Symbol \<Rightarrow> panic + rst_Symbol" where
  "attachCode h projectRoot doc rstSym =
     (if projectRoot \<noteq> '''' \<and> word_sless 0 (Line rstSym) \<and> doc_RelativePath doc \<noteq> '''' \<and>
         isCodeExtractableKind (Kind rstSym)
      then
        (let sourceFile =
               (if \<not> IsAbs h (doc_RelativePath doc) then Join h projectRoot (doc_RelativePath doc)
                else doc_RelativePath doc)
         in case treeSitterExtractCode h sourceFile (Line rstSym) (doc_Language doc) of
              Inl p \<Rightarrow> Inl p
            | Inr code \<Rightarrow> Inr (if code \<noteq> '''' then rstSym\<lparr>Code := code\<rparr> else rstSym))
      else Inr rstSym)"

text \<open>The \<open>rst.Symbol\<close> made for one declared symbol that is not local.\<close>

definition newSymbol ::
  "scip \<Rightarrow> host \<Rightarrow> string \<Rightarrow> Document \<Rightarrow> (string \<times> occInfo) list \<Rightarrow> SymbolInformation
     \<Rightarrow> panic + rst_Symbol" where
  "newSymbol sc h projectRoot doc occIndex sinfo =
     (case buildSignature sinfo of
        Inl p \<Rightarrow> Inl p
      | Inr signature \<Rightarrow>
          attachCode h projectRoot doc
            (attachOccurrence occIndex
               \<lparr>Symbol = si_Symbol sinfo, Kind = Kind_String sc (si_Kind sinfo),
                Signature = signature, Line = 0, Code = '''',
                DependenceOn = [], ReferenceBy = []\<rparr>))"

subsection \<open>The first pass: symbols\<close>

text \<open>
  The builder holds every \<open>rst.Symbol\<close> by pointer, in the symbol map of its document and
  in \<open>symbolIndex\<close>, and the second pass writes through the pointers of
  \<open>symbolIndex\<close>. The symbols therefore live in a store, addressed by position, and
  the maps hold addresses.
\<close>

record rstDoc =
  rd_RelativePath :: string
  rd_Symbols :: "(string \<times> nat) list"

record build_state =
  heap :: "rst_Symbol list"
  symbolIndex :: "(string \<times> nat) list"
  documents :: "(string \<times> rstDoc) list"

fun foldE :: "('a \<Rightarrow> 's \<Rightarrow> 'e + 's) \<Rightarrow> 'a list \<Rightarrow> 's \<Rightarrow> 'e + 's" where
  "foldE f [] s = Inr s"
| "foldE f (x # xs) s = (case f x s of Inl e \<Rightarrow> Inl e | Inr s' \<Rightarrow> foldE f xs s')"

definition symbolStep ::
  "scip \<Rightarrow> host \<Rightarrow> string \<Rightarrow> Document \<Rightarrow> (string \<times> occInfo) list \<Rightarrow> SymbolInformation
     \<Rightarrow> build_state \<times> (string \<times> nat) list \<Rightarrow> panic + build_state \<times> (string \<times> nat) list" where
  "symbolStep sc h projectRoot doc occIndex sinfo s =
     (if IsLocalSymbol sc (si_Symbol sinfo) then Inr s
      else
        (case newSymbol sc h projectRoot doc occIndex sinfo of
           Inl p \<Rightarrow> Inl p
         | Inr rstSym \<Rightarrow>
             (let st = fst s; a = length (heap st)
              in Inr (st\<lparr>heap := heap st @ [rstSym],
                        symbolIndex := AList.update (si_Symbol sinfo) a (symbolIndex st)\<rparr>,
                      AList.update (si_Symbol sinfo) a (snd s)))))"

definition documentStep ::
  "scip \<Rightarrow> host \<Rightarrow> string \<Rightarrow> Document \<Rightarrow> build_state \<Rightarrow> panic + build_state" where
  "documentStep sc h projectRoot doc st =
     (let occIndex = buildOccIndex sc (doc_Occurrences doc)
      in case foldE (symbolStep sc h projectRoot doc occIndex) (doc_Symbols doc) (st, []) of
           Inl p \<Rightarrow> Inl p
         | Inr (st', syms) \<Rightarrow>
             Inr (st'\<lparr>documents :=
                    AList.update (doc_RelativePath doc)
                      \<lparr>rd_RelativePath = doc_RelativePath doc, rd_Symbols = syms\<rparr>
                      (documents st')\<rparr>))"

definition symbolPass :: "scip \<Rightarrow> host \<Rightarrow> string \<Rightarrow> Document list \<Rightarrow> panic + build_state" where
  "symbolPass sc h projectRoot docs =
     foldE (documentStep sc h projectRoot) docs \<lparr>heap = [], symbolIndex = [], documents = []\<rparr>"

subsection \<open>The second pass: cross references\<close>

text \<open>The search loop before each \<open>append\<close>: a list gains an id it does not hold.\<close>

definition addUnique :: "string \<Rightarrow> string list \<Rightarrow> string list" where
  "addUnique x xs = (if x \<in> set xs then xs else xs @ [x])"

text \<open>The body of the inner loop, for the scope occurrence \<open>occ\<close> and another
  occurrence of the same document.\<close>

definition linkOccurrence ::
  "scip \<Rightarrow> (string \<times> nat) list \<Rightarrow> Occurrence \<Rightarrow> Occurrence \<Rightarrow> rst_Symbol list
     \<Rightarrow> rst_Symbol list" where
  "linkOccurrence sc idx occ otherOcc hp =
     (if occ_Symbol otherOcc = occ_Symbol occ then hp
      else if length (occ_Range otherOcc) = 0 then hp
      else
        (let startLine = occ_EnclosingRange occ ! 0;
             endLine = occ_EnclosingRange occ ! 2;
             otherLine = occ_Range otherOcc ! 0
         in if word_sle startLine otherLine \<and> word_sle otherLine endLine then
              (let hp =
                     (case map_of idx (occ_Symbol occ) of
                        Some a \<Rightarrow>
                          (if \<not> IsLocalSymbol sc (occ_Symbol otherOcc)
                           then hp[a := (hp ! a)\<lparr>DependenceOn :=
                                  addUnique (occ_Symbol otherOcc) (DependenceOn (hp ! a))\<rparr>]
                           else hp)
                      | None \<Rightarrow> hp)
               in case map_of idx (occ_Symbol otherOcc) of
                    Some b \<Rightarrow>
                      hp[b := (hp ! b)\<lparr>ReferenceBy :=
                            addUnique (occ_Symbol occ) (ReferenceBy (hp ! b))\<rparr>]
                  | None \<Rightarrow> hp)
            else hp))"

text \<open>The body of the loop over the occurrences of a document: one that is not local
  and has an enclosing range is a scope.\<close>

definition scanScope ::
  "scip \<Rightarrow> (string \<times> nat) list \<Rightarrow> Document \<Rightarrow> Occurrence \<Rightarrow> rst_Symbol list
     \<Rightarrow> rst_Symbol list" where
  "scanScope sc idx doc occ hp =
     (if IsLocalSymbol sc (occ_Symbol occ) then hp
      else if length (occ_EnclosingRange occ) < 3 then hp
      else fold (linkOccurrence sc idx occ) (doc_Occurrences doc) hp)"

definition crossReference ::
  "scip \<Rightarrow> (string \<times> nat) list \<Rightarrow> Document list \<Rightarrow> rst_Symbol list \<Rightarrow> rst_Symbol list" where
  "crossReference sc idx docs hp =
     fold (\<lambda>doc. fold (scanScope sc idx doc) (doc_Occurrences doc)) docs hp"

subsection \<open>The table\<close>

text \<open>The state of the builder when both passes are done.\<close>

definition finalState :: "scip \<Rightarrow> host \<Rightarrow> string \<Rightarrow> Document list \<Rightarrow> panic + build_state" where
  "finalState sc h projectRoot docs =
     (case symbolPass sc h projectRoot docs of
        Inl p \<Rightarrow> Inl p
      | Inr st \<Rightarrow> Inr (st\<lparr>heap := crossReference sc (symbolIndex st) docs (heap st)\<rparr>))"

text \<open>The table by value: every pointer replaced by the symbol it points to.\<close>

definition resolveDocument :: "rst_Symbol list \<Rightarrow> rstDoc \<Rightarrow> rst_Document" where
  "resolveDocument hp rd =
     \<lparr>RelativePath = rd_RelativePath rd,
      Symbols = map (\<lambda>(k, a). (k, hp ! a)) (rd_Symbols rd)\<rparr>"

definition resolve :: "string \<Rightarrow> string \<Rightarrow> build_state \<Rightarrow> rst_RST" where
  "resolve repoID lang st =
     \<lparr>Metadata = \<lparr>Repo = repoID, Language = lang\<rparr>,
      Documents = map (\<lambda>(p, rd). (p, resolveDocument (heap st) rd)) (documents st)\<rparr>"

text \<open>The symbol that \<open>symbolIndex\<close> holds for an id when the build ends.\<close>

definition indexedSymbol :: "build_state \<Rightarrow> string \<Rightarrow> rst_Symbol option" where
  "indexedSymbol st k = map_option (\<lambda>a. heap st ! a) (map_of (symbolIndex st) k)"

definition buildRST ::
  "scip \<Rightarrow> host \<Rightarrow> Document list \<Rightarrow> string \<Rightarrow> string \<Rightarrow> panic + rst_RST" where
  "buildRST sc h docs repoID projectRoot =
     (case docs of
        [] \<Rightarrow> Inl IndexOutOfRange
      | d0 # _ \<Rightarrow>
          (case finalState sc h projectRoot docs of
             Inl p \<Rightarrow> Inl p
           | Inr st \<Rightarrow> Inr (resolve repoID (doc_Language d0) st)))"

subsection \<open>The partitions of \<open>parseMain\<close>\<close>

definition groupByLanguage :: "Document list \<Rightarrow> (string \<times> Document list) list" where
  "groupByLanguage docs =
     fold (\<lambda>doc langDocs.
             let lang = doc_Language doc;
                 lang = (if lang = '''' then ''unknown'' else lang)
             in AList.update lang
                  ((case map_of langDocs lang of None \<Rightarrow> [] | Some ds \<Rightarrow> ds) @ [doc]) langDocs)
       docs []"

text \<open>
  \<open>parseMain\<close> from the grouping on: one table per language, under the name of its
  file in the output directory. The result lists the tables in the order of the loop,
  every write taken to succeed; a panic of the builder ends the run.
\<close>

definition parseMain ::
  "scip \<Rightarrow> host \<Rightarrow> Document list \<Rightarrow> string \<Rightarrow> string \<Rightarrow> string
     \<Rightarrow> panic + (string \<times> rst_RST) list" where
  "parseMain sc h indexDocuments outputDir repoID projectRoot =
     foldE (\<lambda>(lang, docs) written.
              case buildRST sc h docs repoID projectRoot of
                Inl p \<Rightarrow> Inl p
              | Inr rstTable \<Rightarrow>
                  Inr (written @ [(Join h outputDir (rstFilename repoID lang), rstTable)]))
       (groupByLanguage indexDocuments) []"

section \<open>The command-line queries\<close>

definition findRSTFileByRepo :: "host \<Rightarrow> string \<Rightarrow> string \<Rightarrow> string" where
  "findRSTFileByRepo h outputDir repo =
     (let rstFileName = ReplaceAll repo CHR ''.'' CHR ''_'';
          rstFileName = ReplaceAll rstFileName CHR ''/'' CHR ''_'';
          rstFileName = rstFileName @ ''.go.rst'';
          rstPath = Join h outputDir rstFileName
      in if Stat h rstPath then rstPath else '''')"

record SymbolDetails =
  details_Name :: string
  details_Kind :: string
  details_FilePath :: string
  details_Line :: int
  details_Dependencies :: "string list"
  details_References :: "string list"

text \<open>The loop over \<open>doc.Symbols\<close> returns at the first key that matches, in the order
  the loop visits the map.\<close>

definition getSymbolDetails :: "host \<Rightarrow> string \<Rightarrow> string \<Rightarrow> string \<Rightarrow> error + SymbolDetails" where
  "getSymbolDetails h rstPath filePath symbolName =
     (case ReadFile h rstPath of
        None \<Rightarrow> Inl ReadFailed
      | Some data \<Rightarrow>
          (case Unmarshal h data of
             None \<Rightarrow> Inl UnmarshalFailed
           | Some r \<Rightarrow>
               (case map_of (Documents r) filePath of
                  None \<Rightarrow> Inl (FileNotFound filePath)
                | Some doc \<Rightarrow>
                    (case find (\<lambda>(symKey, s).
                                  let baseName = extractSymbolName symKey
                                  in baseName = symbolName \<or>
                                     HasSuffix baseName (''.'' @ symbolName))
                            (Symbols doc) of
                       Some (symKey, s) \<Rightarrow>
                         Inr \<lparr>details_Name = extractSymbolName symKey,
                              details_Kind = Kind s,
                              details_FilePath = filePath,
                              details_Line = 1,
                              details_Dependencies = DependenceOn s,
                              details_References = ReferenceBy s\<rparr>
                     | None \<Rightarrow> Inl (SymbolNotFound symbolName)))))"

section \<open>The browser\<close>

record symbolDetail =
  sd_name :: string
  sd_signature :: string
  sd_filePath :: string
  sd_line :: int
  sd_deps :: "string list"
  sd_refs :: "string list"
  sd_code :: string
  sd_symbolKey :: string

record symbolJump =
  sj_name :: string
  sj_signature :: string
  sj_line :: int
  sj_filePath :: string
  sj_deps :: "string list"
  sj_refs :: "string list"
  sj_code :: string

datatype item =
    repoItem string
  | fileItem string
  | symbolItem string string int
  | refItem string string

datatype msg =
    WindowSizeMsg int int
  | KeyMsg string
  | reposLoadedMsg "item list"
  | filesLoadedMsg "item list"
  | symbolsLoadedMsg "item list"
  | symbolDetailMsg symbolDetail
  | errMsg error

text \<open>A command is the load that the event loop runs next; \<open>NoCmd\<close> is nil.\<close>

datatype cmd =
    NoCmd
  | Quit
  | Cmd_loadSymbolDetail string string string string int

text \<open>The loops of \<open>loadSymbolDetail\<close> over the documents and over the symbols of each:
  the first symbol that matches, in the order the loops visit the maps.\<close>

fun searchDocuments ::
  "string \<Rightarrow> string \<Rightarrow> int \<Rightarrow> (string \<times> rst_Document) list \<Rightarrow> (string \<times> rst_Symbol) option" where
  "searchDocuments filePath symbolName line [] = None"
| "searchDocuments filePath symbolName line ((path, doc) # rest) =
     (if filePath \<noteq> '''' \<and> path \<noteq> filePath then searchDocuments filePath symbolName line rest
      else
        (case find (\<lambda>(symKey, s).
                      let baseName = extractSymbolName symKey
                      in (baseName = symbolName \<or> baseName = symbolName @ ''()'') \<and>
                         (line = 0 \<or> sint (Line s) = line))
                (Symbols doc) of
           Some (symKey, s) \<Rightarrow> Some (path, s)
         | None \<Rightarrow> searchDocuments filePath symbolName line rest))"

text \<open>The message that the command made by \<open>loadSymbolDetail\<close> returns when it runs.\<close>

definition loadSymbolDetail :: "host \<Rightarrow> string \<Rightarrow> string \<Rightarrow> string \<Rightarrow> string \<Rightarrow> int \<Rightarrow> msg" where
  "loadSymbolDetail h rstPath repo filePath symbolName line =
     (let rstFile = Join h rstPath (repoToRSTFile repo)
      in case ReadFile h rstFile of
           None \<Rightarrow> errMsg ReadFailed
         | Some data \<Rightarrow>
             (case Unmarshal h data of
                None \<Rightarrow> errMsg UnmarshalFailed
              | Some r \<Rightarrow>
                  (case searchDocuments filePath symbolName line (Documents r) of
                     None \<Rightarrow> errMsg (SymbolNotFound symbolName)
                   | Some (foundPath, foundSym) \<Rightarrow>
                       symbolDetailMsg
                         \<lparr>sd_name = symbolName,
                          sd_signature = Signature foundSym,
                          sd_filePath = foundPath,
                          sd_line = sint (Line foundSym),
                          sd_deps = DependenceOn foundSym,
                          sd_refs = ReferenceBy foundSym,
                          sd_code = Code foundSym,
                          sd_symbolKey = extractSymbolKey (Symbol foundSym)\<rparr>)))"



text \<open>The message that the command made by \<open>loadRepos\<close> returns when it runs.\<close>

definition loadRepos :: "host \<Rightarrow> string \<Rightarrow> msg" where
  "loadRepos h rstPath =
     (case ReadDir h rstPath of
        None \<Rightarrow> errMsg ReadFailed
      | Some entries \<Rightarrow>
          reposLoadedMsg
            (map (\<lambda>e. repoItem (rstFileToRepoName (entry_Name e)))
               (filter (\<lambda>e. \<not> entry_IsDir e \<and> HasSuffix (entry_Name e) ''.rst'') entries)))"




record ('l, 'v) model =
  repos :: 'l
  files :: 'l
  symbols :: 'l
  deps :: 'l
  refs :: 'l
  viewport :: 'v
  mode :: int
  active :: int
  width :: int
  height :: int
  rstPath :: string
  symbol :: "symbolDetail option"
  symbolStack :: "symbolJump list"





section \<open>Notions used by the statements\<close>

text \<open>A repository id that the writer's sanitizer and the readers' renaming treat alike:
  no scheme prefix and neither \<open>:\<close> nor \<open>-\<close> in it.\<close>

definition benign :: "string \<Rightarrow> bool" where
  "benign repo \<longleftrightarrow>
     \<not> HasPrefix repo ''https://'' \<and> \<not> HasPrefix repo ''http://'' \<and> \<not> HasPrefix repo ''git@'' \<and>
     CHR '':'' \<notin> set repo \<and> CHR ''-'' \<notin> set repo"

text \<open>The repository id after the three \<open>TrimPrefix\<close> calls of \<open>sanitizeRepoID\<close>.\<close>

definition trimScheme :: "string \<Rightarrow> string" where
  "trimScheme repoID =
     TrimPrefix (TrimPrefix (TrimPrefix repoID ''https://'') ''http://'') ''git@''"

text \<open>The nodes of a tree in pre-order, and the nodes below a node.\<close>

fun preorder :: "Node \<Rightarrow> Node list" where
  "preorder (Node t sr er sb eb cs) = Node t sr er sb eb cs # concat (map preorder cs)"

definition descendants :: "Node \<Rightarrow> Node list" where
  "descendants n = concat (map preorder (Children n))"

text \<open>A node is a declaration around the target line: its type is in the table and its
  rows, counted from 1, contain the line.\<close>

definition declaresLine :: "string list \<Rightarrow> uint32 \<Rightarrow> Node \<Rightarrow> bool" where
  "declaresLine nodeTypes targetLine n \<longleftrightarrow>
     node_Type n \<in> set nodeTypes \<and> StartRow n + 1 \<le> targetLine \<and> targetLine \<le> EndRow n + 1"

section \<open>Example inputs\<close>

text \<open>A Go file of three lines, a function with a local type, and its syntax tree.\<close>

definition exampleSource :: string where
  "exampleSource =
     ''func A() {'' @ [CHR 0x0A] @ ''  type T int'' @ [CHR 0x0A] @ ''}'' @ [CHR 0x0A]"

definition exampleTree :: Node where
  "exampleTree =
     Node ''source_file'' 0 3 0 26
       [Node ''function_declaration'' 0 2 0 25
          [Node ''block'' 0 2 9 25
             [Node ''type_declaration'' 1 1 13 23 [Node ''type_spec'' 1 1 18 23 []]]]]"

definition exampleHost :: host where
  "exampleHost =
     \<lparr>ReadFile = (\<lambda>p. if p = ''/src/a.go'' then Some exampleSource else None),
      Stat = (\<lambda>p. p = ''/src/a.go''),
      Join = (\<lambda>d n. d @ ''/'' @ n),
      IsAbs = (\<lambda>p. HasPrefix p ''/''),
      Parse = (\<lambda>s. if s = exampleSource then Some exampleTree else None),
      Unmarshal = (\<lambda>s. None),
      ReadDir = (\<lambda>p. None)\<rparr>"

text \<open>The bindings as the SCIP protocol has them: a local symbol starts with
  \<open>local\<close> and a blank, the Definition role is bit 0 and the ForwardDefinition role
  bit 6, a kind is named as its constant is.\<close>

definition exampleScip :: scip where
  "exampleScip =
     \<lparr>IsLocalSymbol = (\<lambda>s. HasPrefix s ''local ''),
      SymbolRole_Definition = 1,
      SymbolRole_ForwardDefinition = 64,
      Kind_String =
        (\<lambda>k. case k of
               SymbolInformation_UnspecifiedKind \<Rightarrow> ''UnspecifiedKind''
             | SymbolInformation_Function \<Rightarrow> ''Function''
             | SymbolInformation_Method \<Rightarrow> ''Method''
             | SymbolInformation_Struct \<Rightarrow> ''Struct''
             | SymbolInformation_Class \<Rightarrow> ''Class''
             | SymbolInformation_Interface \<Rightarrow> ''Interface''
             | SymbolInformation_Constant \<Rightarrow> ''Constant''
             | SymbolInformation_Field \<Rightarrow> ''Field''
             | SymbolInformation_TypeParameter \<Rightarrow> ''TypeParameter''
             | SymbolInformation_OtherKind n \<Rightarrow> ''Other'')\<rparr>"

text \<open>The test of the inner loop of the second pass: the other occurrence has another
  symbol and a range whose first row lies in the enclosing range of the scope.\<close>

definition inScope :: "Occurrence \<Rightarrow> Occurrence \<Rightarrow> bool" where
  "inScope occ otherOcc \<longleftrightarrow>
     occ_Symbol otherOcc \<noteq> occ_Symbol occ \<and> occ_Range otherOcc \<noteq> [] \<and>
     word_sle (occ_EnclosingRange occ ! 0) (occ_Range otherOcc ! 0) \<and>
     word_sle (occ_Range otherOcc ! 0) (occ_EnclosingRange occ ! 2)"

text \<open>A scope occurrence of a document together with an occurrence inside its scope:
  the pairs for which the second pass adds edges.\<close>

definition scopePair :: "scip \<Rightarrow> Document \<Rightarrow> Occurrence \<Rightarrow> Occurrence \<Rightarrow> bool" where
  "scopePair sc doc occ otherOcc \<longleftrightarrow>
     occ \<in> set (doc_Occurrences doc) \<and> otherOcc \<in> set (doc_Occurrences doc) \<and>
     \<not> IsLocalSymbol sc (occ_Symbol occ) \<and> 3 \<le> length (occ_EnclosingRange occ) \<and>
     inScope occ otherOcc"

text \<open>The ids of the occurrences inside a scope of the symbol \<open>k\<close>, and the ids of the
  scopes that an occurrence of \<open>k\<close> lies in, over all documents.\<close>

definition usedInScopeOf :: "scip \<Rightarrow> Document list \<Rightarrow> string \<Rightarrow> string set" where
  "usedInScopeOf sc docs k =
     {x. \<exists>doc occ otherOcc. doc \<in> set docs \<and> scopePair sc doc occ otherOcc \<and>
           occ_Symbol occ = k \<and> occ_Symbol otherOcc = x \<and> \<not> IsLocalSymbol sc x}"

definition scopesAround :: "scip \<Rightarrow> Document list \<Rightarrow> string \<Rightarrow> string set" where
  "scopesAround sc docs k =
     {x. \<exists>doc occ otherOcc. doc \<in> set docs \<and> scopePair sc doc occ otherOcc \<and>
           occ_Symbol otherOcc = k \<and> occ_Symbol occ = x}"

text \<open>What one pair of occurrences adds to the dependence list, and to the reference
  list, of the symbol at address \<open>c\<close>; and the test that makes an occurrence a scope.\<close>

definition depAdd :: "scip \<Rightarrow> (string \<times> nat) list \<Rightarrow> nat \<Rightarrow> Occurrence \<Rightarrow> Occurrence \<Rightarrow> string set" where
  "depAdd sc idx c occ other =
     (if inScope occ other \<and> map_of idx (occ_Symbol occ) = Some c \<and>
         \<not> IsLocalSymbol sc (occ_Symbol other)
      then {occ_Symbol other} else {})"

definition refAdd :: "(string \<times> nat) list \<Rightarrow> nat \<Rightarrow> Occurrence \<Rightarrow> Occurrence \<Rightarrow> string set" where
  "refAdd idx c occ other =
     (if inScope occ other \<and> map_of idx (occ_Symbol other) = Some c
      then {occ_Symbol occ} else {})"

definition isScope :: "scip \<Rightarrow> Occurrence \<Rightarrow> bool" where
  "isScope sc occ \<longleftrightarrow> \<not> IsLocalSymbol sc (occ_Symbol occ) \<and> 3 \<le> length (occ_EnclosingRange occ)"

text \<open>
  What holds between the two passes. Every id of the index points into the store, at a
  symbol of that id, and is not local; no symbol has an edge yet; the symbol maps of
  the documents point into the store, each key at a symbol of that id.
\<close>

definition idxOK :: "scip \<Rightarrow> (string \<times> nat) list \<Rightarrow> rst_Symbol list \<Rightarrow> bool" where
  "idxOK sc idx hp \<longleftrightarrow>
     (\<forall>k a. map_of idx k = Some a \<longrightarrow>
        a < length hp \<and> Symbol (hp ! a) = k \<and> \<not> IsLocalSymbol sc k)"

definition freshLists :: "rst_Symbol list \<Rightarrow> bool" where
  "freshLists hp \<longleftrightarrow> (\<forall>s\<in>set hp. DependenceOn s = [] \<and> ReferenceBy s = [])"

definition refsOK :: "rst_Symbol list \<Rightarrow> (string \<times> nat) list \<Rightarrow> bool" where
  "refsOK hp syms \<longleftrightarrow> (\<forall>(k, a)\<in>set syms. a < length hp \<and> Symbol (hp ! a) = k)"

definition stateOK :: "scip \<Rightarrow> build_state \<Rightarrow> bool" where
  "stateOK sc st \<longleftrightarrow>
     idxOK sc (symbolIndex st) (heap st) \<and> freshLists (heap st) \<and>
     (\<forall>(p, rd)\<in>set (documents st). refsOK (heap st) (rd_Symbols rd))"

text \<open>
  A document with the function \<open>F\<close>, defined on row 9 with the enclosing rows 9 to 19,
  and a use of \<open>G\<close> on row 14. The first document declares \<open>F\<close> alone, the second
  declares \<open>F\<close> and \<open>G\<close>; a third document declares \<open>G\<close> too.
\<close>

definition occF :: Occurrence where
  "occF = \<lparr>occ_Range = [9, 5, 6], occ_Symbol = ''pkg F().'', occ_SymbolRoles = 1,
           occ_EnclosingRange = [9, 0, 19, 1]\<rparr>"

definition occG :: Occurrence where
  "occG = \<lparr>occ_Range = [14, 2, 3], occ_Symbol = ''pkg G().'', occ_SymbolRoles = 0,
           occ_EnclosingRange = []\<rparr>"

definition declF :: SymbolInformation where
  "declF = \<lparr>si_Symbol = ''pkg F().'', si_Documentation = [], si_Kind = SymbolInformation_Function,
            si_DisplayName = ''F'', si_SignatureDocumentation = None\<rparr>"

definition declG :: SymbolInformation where
  "declG = \<lparr>si_Symbol = ''pkg G().'', si_Documentation = [], si_Kind = SymbolInformation_Function,
            si_DisplayName = ''G'', si_SignatureDocumentation = None\<rparr>"

definition docF :: Document where
  "docF = \<lparr>doc_Language = ''go'', doc_RelativePath = ''f.go'',
           doc_Occurrences = [occF, occG], doc_Symbols = [declF]\<rparr>"

definition docFG :: Document where
  "docFG = \<lparr>doc_Language = ''go'', doc_RelativePath = ''f.go'',
            doc_Occurrences = [occF, occG], doc_Symbols = [declF, declG]\<rparr>"

definition docG :: Document where
  "docG = \<lparr>doc_Language = ''go'', doc_RelativePath = ''g.go'',
           doc_Occurrences = [], doc_Symbols = [declG]\<rparr>"

text \<open>The tables the builder makes of these documents.\<close>

definition symF :: rst_Symbol where
  "symF = \<lparr>Symbol = ''pkg F().'', Kind = ''Function'', Signature = ''func F'', Line = 10,
           Code = '''', DependenceOn = [''pkg G().''], ReferenceBy = []\<rparr>"

definition symG :: rst_Symbol where
  "symG = \<lparr>Symbol = ''pkg G().'', Kind = ''Function'', Signature = ''func G'', Line = 15,
           Code = '''', DependenceOn = [], ReferenceBy = [''pkg F().'']\<rparr>"

definition symG0 :: rst_Symbol where
  "symG0 = \<lparr>Symbol = ''pkg G().'', Kind = ''Function'', Signature = ''func G'', Line = 0,
            Code = '''', DependenceOn = [], ReferenceBy = []\<rparr>"

definition tableF :: rst_RST where
  "tableF =
     \<lparr>Metadata = \<lparr>Repo = ''repo'', Language = ''go''\<rparr>,
      Documents = [(''f.go'', \<lparr>RelativePath = ''f.go'', Symbols = [(''pkg F().'', symF)]\<rparr>)]\<rparr>"

definition tableFG :: rst_RST where
  "tableFG =
     \<lparr>Metadata = \<lparr>Repo = ''repo'', Language = ''go''\<rparr>,
      Documents = [(''f.go'', \<lparr>RelativePath = ''f.go'',
                     Symbols = [(''pkg F().'', symF), (''pkg G().'', symG)]\<rparr>)]\<rparr>"

definition tableGFG :: rst_RST where
  "tableGFG =
     \<lparr>Metadata = \<lparr>Repo = ''repo'', Language = ''go''\<rparr>,
      Documents = [(''g.go'', \<lparr>RelativePath = ''g.go'', Symbols = [(''pkg G().'', symG0)]\<rparr>),
                   (''f.go'', \<lparr>RelativePath = ''f.go'',
                     Symbols = [(''pkg F().'', symF), (''pkg G().'', symG)]\<rparr>)]\<rparr>"

text \<open>The symbol entries of a table, and the two properties of its edge lists that the
  statements below are about: every listed id is the id of an entry, and an id is in
  the dependence list of one entry exactly when that entry's id is in the reference
  list of the other.\<close>

definition entries :: "rst_RST \<Rightarrow> rst_Symbol list" where
  "entries rst = concat (map (\<lambda>(p, d). map snd (Symbols d)) (Documents rst))"

definition listsClosed :: "rst_RST \<Rightarrow> bool" where
  "listsClosed rst \<longleftrightarrow>
     (\<forall>s\<in>set (entries rst). \<forall>x\<in>set (DependenceOn s) \<union> set (ReferenceBy s).
        x \<in> Symbol ` set (entries rst))"

definition edgesSymmetric :: "rst_RST \<Rightarrow> bool" where
  "edgesSymmetric rst \<longleftrightarrow>
     (\<forall>A\<in>set (entries rst). \<forall>B\<in>set (entries rst).
        (Symbol A \<in> set (DependenceOn B)) = (Symbol B \<in> set (ReferenceBy A)))"

text \<open>The ids that the documents declare and that are not local, in the order of the
  first pass.\<close>

definition declaredIds :: "scip \<Rightarrow> Document list \<Rightarrow> string list" where
  "declaredIds sc docs =
     concat (map (\<lambda>doc. filter (\<lambda>k. \<not> IsLocalSymbol sc k) (map si_Symbol (doc_Symbols doc))) docs)"

text \<open>Every key of every symbol map of the documents is held by the index, at the same
  address.\<close>

definition allIndexed :: "build_state \<Rightarrow> bool" where
  "allIndexed st \<longleftrightarrow>
     (\<forall>(p, rd)\<in>set (documents st). \<forall>(k, a)\<in>set (rd_Symbols rd).
        map_of (symbolIndex st) k = Some a)"

text \<open>The state of the builder when it has built the table of \<open>docFG\<close>.\<close>

definition stateFG :: build_state where
  "stateFG =
     \<lparr>heap = [symF, symG],
      symbolIndex = [(''pkg F().'', 0), (''pkg G().'', 1)],
      documents = [(''f.go'', \<lparr>rd_RelativePath = ''f.go'',
                      rd_Symbols = [(''pkg F().'', 0), (''pkg G().'', 1)]\<rparr>)]\<rparr>"

text \<open>The entry that the occurrence index makes of an occurrence, and the occurrence
  that decides the entry of an id: the first one of that id that has a range. The index
  takes no occurrence without a range and none with the empty id.\<close>

definition occInfoOf :: "scip \<Rightarrow> Occurrence \<Rightarrow> occInfo" where
  "occInfoOf sc occ =
     \<lparr>info_line = occ_Range occ ! 0 + 1,
      info_kind = inferKindFromRoles sc (occ_SymbolRoles occ)\<rparr>"

definition firstRanged :: "Occurrence list \<Rightarrow> string \<Rightarrow> Occurrence option" where
  "firstRanged occs k =
     (if k = '''' then None else find (\<lambda>occ. occ_Symbol occ = k \<and> occ_Range occ \<noteq> []) occs)"

text \<open>An occurrence of \<open>F\<close> that has no range and no role, as a first occurrence.\<close>

definition occNoRange :: Occurrence where
  "occNoRange = \<lparr>occ_Range = [], occ_Symbol = ''pkg F().'', occ_SymbolRoles = 0,
                 occ_EnclosingRange = []\<rparr>"

text \<open>
  The three forms in which a name can match an id, and the two tests the query
  operations make: \<open>getSymbolDetails\<close> of the command line and \<open>loadSymbolDetail\<close> of
  the browser.
\<close>

definition matchesExact :: "string \<Rightarrow> string \<Rightarrow> bool" where
  "matchesExact query key \<longleftrightarrow> extractSymbolName key = query"

definition matchesCall :: "string \<Rightarrow> string \<Rightarrow> bool" where
  "matchesCall query key \<longleftrightarrow> extractSymbolName key = query @ ''()''"

definition matchesMember :: "string \<Rightarrow> string \<Rightarrow> bool" where
  "matchesMember query key \<longleftrightarrow> HasSuffix (extractSymbolName key) (''.'' @ query)"

text \<open>A stored table for the queries: one file with a function at line 10, a member of a
  type, and an id whose name ends in a pair of parentheses.\<close>

definition idFoo :: string where
  "idFoo = ''scip-go gomod m v '' @ [backtick] @ ''m/pkg'' @ [backtick] @ ''/Foo().''"

definition idInner :: string where
  "idInner = ''scip-go gomod m v '' @ [backtick] @ ''m/pkg'' @ [backtick] @ ''/Outer.Inner#''"

definition idCall :: string where
  "idCall = ''scip-go gomod m v '' @ [backtick] @ ''m/pkg'' @ [backtick] @ ''/Bar()().''"

definition entryFoo :: rst_Symbol where
  "entryFoo = \<lparr>Symbol = idFoo, Kind = ''Function'', Signature = ''func Foo()'', Line = 10,
               Code = ''func Foo() {}'', DependenceOn = [idInner], ReferenceBy = [idCall]\<rparr>"

definition entryInner :: rst_Symbol where
  "entryInner = \<lparr>Symbol = idInner, Kind = ''Struct'', Signature = ''type Inner'', Line = 3,
                 Code = '''', DependenceOn = [], ReferenceBy = [idFoo]\<rparr>"

definition entryCall :: rst_Symbol where
  "entryCall = \<lparr>Symbol = idCall, Kind = ''Function'', Signature = ''func Bar()'', Line = 20,
                Code = '''', DependenceOn = [idFoo], ReferenceBy = []\<rparr>"

definition storedTable :: rst_RST where
  "storedTable =
     \<lparr>Metadata = \<lparr>Repo = ''repo'', Language = ''go''\<rparr>,
      Documents = [(''a.go'', \<lparr>RelativePath = ''a.go'',
                     Symbols = [(idFoo, entryFoo), (idInner, entryInner), (idCall, entryCall)]\<rparr>)]\<rparr>"

definition queryHost :: host where
  "queryHost =
     \<lparr>ReadFile = (\<lambda>p. if p = ''idx/repo.go.rst'' then Some ''bytes'' else None),
      Stat = (\<lambda>p. p = ''idx/repo.go.rst''),
      Join = (\<lambda>d n. d @ ''/'' @ n),
      IsAbs = (\<lambda>p. HasPrefix p ''/''),
      Parse = (\<lambda>s. None),
      Unmarshal = (\<lambda>s. if s = ''bytes'' then Some storedTable else None),
      ReadDir = (\<lambda>p. if p = ''idx''
                     then Some [\<lparr>entry_Name = ''repo.go.rst'', entry_IsDir = False\<rparr>] else None)\<rparr>"


definition detailFoo :: symbolDetail where
  "detailFoo =
     \<lparr>sd_name = ''Foo'', sd_signature = ''func Foo()'', sd_filePath = ''a.go'', sd_line = 10,
      sd_deps = [idInner], sd_refs = [idCall], sd_code = ''func Foo() {}'',
      sd_symbolKey = extractSymbolKey idFoo\<rparr>"



text \<open>
  Two index directories after a run of \<open>parseMain\<close>: one for the repository id
  \<open>git@host:a-b\<close> with Go documents only, which holds the file \<open>host_a_b.go.rst\<close>, and
  one for the id \<open>repo\<close> with Go and Python documents, which holds \<open>repo.go.rst\<close> and
  \<open>repo.python.rst\<close>.
\<close>

definition schemeHost :: host where
  "schemeHost =
     \<lparr>ReadFile = (\<lambda>p. if p = ''out/host_a_b.go.rst'' then Some ''bytes'' else None),
      Stat = (\<lambda>p. p = ''out/host_a_b.go.rst''),
      Join = (\<lambda>d n. d @ ''/'' @ n),
      IsAbs = (\<lambda>p. HasPrefix p ''/''),
      Parse = (\<lambda>s. None),
      Unmarshal = (\<lambda>s. if s = ''bytes'' then Some storedTable else None),
      ReadDir = (\<lambda>p. if p = ''out''
                     then Some [\<lparr>entry_Name = ''host_a_b.go.rst'', entry_IsDir = False\<rparr>]
                     else None)\<rparr>"

definition twoPartitionHost :: host where
  "twoPartitionHost =
     \<lparr>ReadFile = (\<lambda>p. if p = ''out/repo.go.rst'' \<or> p = ''out/repo.python.rst''
                      then Some ''bytes'' else None),
      Stat = (\<lambda>p. p = ''out/repo.go.rst'' \<or> p = ''out/repo.python.rst''),
      Join = (\<lambda>d n. d @ ''/'' @ n),
      IsAbs = (\<lambda>p. HasPrefix p ''/''),
      Parse = (\<lambda>s. None),
      Unmarshal = (\<lambda>s. if s = ''bytes'' then Some storedTable else None),
      ReadDir = (\<lambda>p. if p = ''out''
                     then Some [\<lparr>entry_Name = ''repo.go.rst'', entry_IsDir = False\<rparr>,
                                \<lparr>entry_Name = ''repo.python.rst'', entry_IsDir = False\<rparr>]
                     else None)\<rparr>"

text \<open>A Go file with two functions that start on its first line, the second one ending
  on the next line, and its syntax tree: the two declarations are siblings.\<close>

definition siblingSource :: string where
  "siblingSource = ''func a(){}; func b(){'' @ [CHR 0x0A] @ ''}''"

definition declA :: Node where
  "declA = Node ''function_declaration'' 0 0 0 10 []"

definition declB :: Node where
  "declB = Node ''function_declaration'' 0 1 12 23 []"

definition siblingTree :: Node where
  "siblingTree = Node ''source_file'' 0 1 0 23 [declA, declB]"

definition siblingHost :: host where
  "siblingHost =
     \<lparr>ReadFile = (\<lambda>p. if p = ''/src/s.go'' then Some siblingSource else None),
      Stat = (\<lambda>p. p = ''/src/s.go''),
      Join = (\<lambda>d n. d @ ''/'' @ n),
      IsAbs = (\<lambda>p. HasPrefix p ''/''),
      Parse = (\<lambda>s. if s = siblingSource then Some siblingTree else None),
      Unmarshal = (\<lambda>s. None),
      ReadDir = (\<lambda>p. None)\<rparr>"

section \<open>Properties of the symbol names\<close>

lemma LastIndex_none: "c \<notin> set s \<Longrightarrow> LastIndex s [c] = - 1"
  by (induction s) (auto simp: Let_def)

lemma LastIndex_last:
  "c \<notin> set post \<Longrightarrow> LastIndex (pre @ c # post) [c] = int (length pre)"
  by (induction pre) (auto simp: Let_def LastIndex_none)

lemma extractSymbolName_no_tick:
  "backtick \<notin> set s \<Longrightarrow> extractSymbolName s = s"
  by (simp add: extractSymbolName_def LastIndex_none)

lemma extractSymbolName_after_tick:
  assumes "backtick \<notin> set post"
  shows "extractSymbolName (pre @ backtick # post) =
     TrimSuffix (TrimSuffix (TrimSuffix (TrimPrefix post ''/'') ''#'') ''.'') ''()''"
proof -
  have li: "LastIndex (pre @ backtick # post) [backtick] = int (length pre)"
    using assms by (rule LastIndex_last)
  have "nat (int (length pre) + 1) = Suc (length pre)" by simp
  then have "drop (nat (int (length pre) + 1)) (pre @ backtick # post) = post"
    by (simp del: of_nat_Suc)
  then show ?thesis
    unfolding extractSymbolName_def li Let_def by simp
qed

lemmas trim_defs = TrimPrefix_def TrimSuffix_def HasPrefix_def HasSuffix_def suffix_def

text \<open>
  Claim C7. \<open>extractSymbolName\<close> returns an id without a backtick unchanged. Of an id
  with one it returns the text after the last backtick, a leading \<open>/\<close> removed, then a
  trailing \<open>#\<close>, then a trailing \<open>.\<close>, then a trailing \<open>()\<close>. So the text \<open>Foo()\<close> after
  the last backtick gives \<open>Foo\<close>, and \<open>Outer.Inner#\<close> gives \<open>Outer.Inner\<close>.
\<close>

theorem extractSymbolName_spec:
  "(backtick \<notin> set s \<longrightarrow> extractSymbolName s = s) \<and>
   (backtick \<notin> set post \<longrightarrow>
      extractSymbolName (pre @ backtick # post) =
        TrimSuffix (TrimSuffix (TrimSuffix (TrimPrefix post ''/'') ''#'') ''.'') ''()'') \<and>
   extractSymbolName (pre @ backtick # ''Foo()'') = ''Foo'' \<and>
   extractSymbolName (pre @ backtick # ''Outer.Inner#'') = ''Outer.Inner''"
proof -
  have a: "extractSymbolName (pre @ backtick # ''Foo()'') = ''Foo''"
    by (subst extractSymbolName_after_tick) (simp_all add: backtick_def trim_defs)
  have b: "extractSymbolName (pre @ backtick # ''Outer.Inner#'') = ''Outer.Inner''"
    by (subst extractSymbolName_after_tick) (simp_all add: backtick_def trim_defs)
  show ?thesis
    using a b extractSymbolName_no_tick extractSymbolName_after_tick by blast
qed

theorem extractSymbolName_spec_witness:
  "extractSymbolName ''main'' = ''main'' \<and>
   extractSymbolName (''scip-go gomod m v '' @ backtick # ''/Type#Method().'') = ''Type#Method''"
  using extractSymbolName_spec [of "''main''" "''/Type#Method().''" "''scip-go gomod m v ''"]
  by (simp add: backtick_def trim_defs)

section \<open>Properties of the file names\<close>

lemma length_TrimPrefix_le: "length (TrimPrefix s p) \<le> length s"
  by (simp add: TrimPrefix_def)

lemma length_TrimPrefix_less:
  "HasPrefix s p \<Longrightarrow> p \<noteq> [] \<Longrightarrow> length (TrimPrefix s p) < length s"
  by (auto simp: TrimPrefix_def HasPrefix_def prefix_def)

lemma split_at_dot:
  "CHR ''.'' \<notin> set xs \<Longrightarrow> CHR ''.'' \<notin> set xs' \<Longrightarrow>
   xs @ CHR ''.'' # ys = xs' @ CHR ''.'' # ys' \<Longrightarrow> xs = xs' \<and> ys = ys'"
proof (induction xs arbitrary: xs')
  case Nil then show ?case by (cases xs') auto
next
  case (Cons x xs) then show ?case by (cases xs') auto
qed

lemma sanitize_map:
  "sanitizeRepoID repoID =
     map (\<lambda>c. if c = CHR ''/'' \<or> c = CHR ''.'' \<or> c = CHR '':'' \<or> c = CHR ''-'' then CHR ''_'' else c)
       (trimScheme repoID)"
  by (simp add: sanitizeRepoID_def ReplaceAll_def trimScheme_def Let_def)

lemma reader_map:
  "repoToRSTFile repo =
     map (\<lambda>c. if c = CHR ''.'' \<or> c = CHR ''/'' then CHR ''_'' else c) repo @ ''.go.rst''"
  by (simp add: repoToRSTFile_def ReplaceAll_def Let_def)

lemma trimScheme_id:
  "\<not> HasPrefix r ''https://'' \<Longrightarrow> \<not> HasPrefix r ''http://'' \<Longrightarrow> \<not> HasPrefix r ''git@'' \<Longrightarrow>
   trimScheme r = r"
  by (simp add: trimScheme_def TrimPrefix_def)

lemma trimScheme_shorter:
  assumes "HasPrefix r ''https://'' \<or> HasPrefix r ''http://'' \<or> HasPrefix r ''git@''"
  shows "length (trimScheme r) < length r"
proof (cases "HasPrefix r ''https://''")
  case True
  then have "length (TrimPrefix r ''https://'') < length r"
    by (rule length_TrimPrefix_less) simp
  moreover have "length (trimScheme r) \<le> length (TrimPrefix r ''https://'')"
    unfolding trimScheme_def
    using length_TrimPrefix_le [of "TrimPrefix (TrimPrefix r ''https://'') ''http://''" "''git@''"]
      length_TrimPrefix_le [of "TrimPrefix r ''https://''" "''http://''"]
    by linarith
  ultimately show ?thesis by simp
next
  case F1: False
  then have e1: "TrimPrefix r ''https://'' = r" by (simp add: TrimPrefix_def)
  show ?thesis
  proof (cases "HasPrefix r ''http://''")
    case True
    then have "length (TrimPrefix r ''http://'') < length r"
      by (rule length_TrimPrefix_less) simp
    moreover have "length (trimScheme r) \<le> length (TrimPrefix r ''http://'')"
      unfolding trimScheme_def e1 by (rule length_TrimPrefix_le)
    ultimately show ?thesis by simp
  next
    case False
    then have e2: "TrimPrefix r ''http://'' = r" by (simp add: TrimPrefix_def)
    from assms F1 False have "HasPrefix r ''git@''" by simp
    then have "length (TrimPrefix r ''git@'') < length r"
      by (rule length_TrimPrefix_less) simp
    then show ?thesis by (simp add: trimScheme_def e1 e2)
  qed
qed

lemma names_agree_iff:
  "repoToRSTFile repo = rstFilename repo lang \<longleftrightarrow> lang = ''go'' \<and> benign repo"
proof
  assume eq: "repoToRSTFile repo = rstFilename repo lang"
  let ?g = "\<lambda>c. if c = CHR ''.'' \<or> c = CHR ''/'' then CHR ''_'' else c"
  let ?f = "\<lambda>c. if c = CHR ''/'' \<or> c = CHR ''.'' \<or> c = CHR '':'' \<or> c = CHR ''-'' then CHR ''_'' else c"
  have "map ?g repo @ CHR ''.'' # ''go.rst'' = map ?f (trimScheme repo) @ CHR ''.'' # (lang @ ''.rst'')"
    using eq by (simp add: reader_map rstFilename_def sanitize_map)
  moreover have "CHR ''.'' \<notin> set (map ?g repo)" by auto
  moreover have "CHR ''.'' \<notin> set (map ?f (trimScheme repo))" by auto
  ultimately have ml: "map ?g repo = map ?f (trimScheme repo) \<and> ''go.rst'' = lang @ ''.rst''"
    by (rule split_at_dot [rotated 2])
  then have m: "map ?g repo = map ?f (trimScheme repo)" and l: "''go.rst'' = lang @ ''.rst''"
    by simp_all
  from l have "lang @ ''.rst'' = ''go'' @ ''.rst''" by simp
  then have lang: "lang = ''go''" by (simp only: append_same_eq)
  from m have "length (map ?g repo) = length (map ?f (trimScheme repo))" by (rule arg_cong)
  then have "length repo = length (trimScheme repo)" by (simp only: length_map)
  then have np: "\<not> (HasPrefix repo ''https://'' \<or> HasPrefix repo ''http://'' \<or> HasPrefix repo ''git@'')"
    using trimScheme_shorter [of repo] by auto
  then have "trimScheme repo = repo" by (simp add: trimScheme_id)
  with m have "map ?g repo = map ?f repo" by simp
  then have "\<forall>c\<in>set repo. ?g c = ?f c" by (simp add: map_eq_conv)
  then have "CHR '':'' \<notin> set repo \<and> CHR ''-'' \<notin> set repo" by (auto split: if_splits)
  with np lang show "lang = ''go'' \<and> benign repo" by (simp add: benign_def)
next
  assume "lang = ''go'' \<and> benign repo"
  then have lang: "lang = ''go''" and b: "benign repo" by simp_all
  from b have t: "trimScheme repo = repo" by (simp add: benign_def trimScheme_id)
  from b have "\<forall>c\<in>set repo. c \<noteq> CHR '':'' \<and> c \<noteq> CHR ''-''" by (auto simp: benign_def)
  then have "map (\<lambda>c. if c = CHR ''.'' \<or> c = CHR ''/'' then CHR ''_'' else c) repo =
    map (\<lambda>c. if c = CHR ''/'' \<or> c = CHR ''.'' \<or> c = CHR '':'' \<or> c = CHR ''-'' then CHR ''_'' else c) repo"
    by (auto simp: map_eq_conv)
  then show "repoToRSTFile repo = rstFilename repo lang"
    by (simp add: reader_map rstFilename_def sanitize_map t lang)
qed

lemma findRSTFileByRepo_stat:
  "findRSTFileByRepo h outputDir repo =
     (if Stat h (Join h outputDir (repoToRSTFile repo))
      then Join h outputDir (repoToRSTFile repo) else '''')"
  by (simp add: findRSTFileByRepo_def repoToRSTFile_def Let_def)

section \<open>Properties of the body extraction\<close>

lemma fold_dfsWalk:
  "(\<And>c s. c \<in> set cs \<Longrightarrow> dfsWalk c fn s = fold fn (preorder c) s) \<Longrightarrow>
   fold (\<lambda>c. dfsWalk c fn) cs s = fold fn (concat (map preorder cs)) s"
  by (induction cs arbitrary: s) auto

lemma dfsWalk_preorder: "dfsWalk n fn s = fold fn (preorder n) s"
proof (induction n fn s rule: dfsWalk.induct)
  case (1 t sr er sb eb cs fn s)
  have "fold (\<lambda>c. dfsWalk c fn) cs (fn (Node t sr er sb eb cs) s) =
        fold fn (concat (map preorder cs)) (fn (Node t sr er sb eb cs) s)"
    by (rule fold_dfsWalk) (rule "1.IH")
  then show ?case by simp
qed

lemma fold_recordMatch:
  "fold (recordMatch nodeTypes targetLine) ns acc =
     (case filter (declaresLine nodeTypes targetLine) ns of
        [] \<Rightarrow> acc
      | m # ms \<Rightarrow> Some (last (m # ms)))"
proof (induction ns arbitrary: acc)
  case Nil
  then show ?case by simp
next
  case (Cons n ns)
  show ?case
  proof (cases "declaresLine nodeTypes targetLine n")
    case True
    then have "recordMatch nodeTypes targetLine n acc = Some n"
      by (simp add: recordMatch_def declaresLine_def)
    then show ?thesis using True Cons.IH [of "Some n"]
      by (simp split: list.splits)
  next
    case False
    then have "recordMatch nodeTypes targetLine n acc = acc"
      by (auto simp: recordMatch_def declaresLine_def Let_def)
    then show ?thesis using False Cons.IH [of acc] by simp
  qed
qed

lemma last_filter_concat:
  "filter P (concat (map f cs)) \<noteq> [] \<Longrightarrow>
   \<exists>c\<in>set cs. filter P (f c) \<noteq> [] \<and>
     last (filter P (concat (map f cs))) = last (filter P (f c))"
proof (induction cs)
  case Nil
  then show ?case by simp
next
  case (Cons c cs)
  show ?case
  proof (cases "filter P (concat (map f cs)) = []")
    case True
    with Cons.prems show ?thesis by auto
  next
    case False
    from Cons.IH [OF False] obtain c' where "c' \<in> set cs" "filter P (f c') \<noteq> []"
      "last (filter P (concat (map f cs))) = last (filter P (f c'))" by blast
    with False show ?thesis by auto
  qed
qed

lemma innermost:
  "filter P (preorder n) \<noteq> [] \<Longrightarrow>
   \<forall>d\<in>set (descendants (last (filter P (preorder n)))). \<not> P d"
proof (induction n)
  case (Node t sr er sb eb cs)
  let ?n = "Node t sr er sb eb cs"
  let ?D = "concat (map preorder cs)"
  show ?case
  proof (cases "filter P ?D = []")
    case True
    with Node.prems have "P ?n" by (auto split: if_splits)
    with True have "last (filter P (preorder ?n)) = ?n" by simp
    moreover from True have "\<forall>d\<in>set ?D. \<not> P d" by (simp add: filter_empty_conv)
    ultimately show ?thesis by (simp add: descendants_def)
  next
    case False
    from last_filter_concat [OF False] obtain c where c: "c \<in> set cs"
      "filter P (preorder c) \<noteq> []" "last (filter P ?D) = last (filter P (preorder c))" by blast
    from False have "last (filter P (preorder ?n)) = last (filter P ?D)" by simp
    then have e: "last (filter P (preorder ?n)) = last (filter P (preorder c))"
      by (simp only: c(3))
    show ?thesis unfolding e by (rule Node.IH [OF c(1) c(2)])
  qed
qed

lemma last_filter_in:
  "filter P xs \<noteq> [] \<Longrightarrow> last (filter P xs) \<in> set xs \<and> P (last (filter P xs))"
proof -
  assume "filter P xs \<noteq> []"
  then have "last (filter P xs) \<in> set (filter P xs)" by (rule last_in_set)
  then show ?thesis by simp
qed

lemma nodeTypesFor_rows:
  "map (\<lambda>l. (l, nodeTypesFor l)) (map fst codeBlockNodeTypes) = codeBlockNodeTypes"
  by (simp add: nodeTypesFor_def codeBlockNodeTypes_def)

lemma nodeTypesFor_fallback:
  "lang \<notin> set (map fst codeBlockNodeTypes) \<Longrightarrow> nodeTypesFor lang = nodeTypesFor ''go''"
proof -
  assume "lang \<notin> set (map fst codeBlockNodeTypes)"
  then have "map_of codeBlockNodeTypes lang = None"
    by (simp add: map_of_eq_None_iff)
  moreover have "map_of codeBlockNodeTypes ''go'' =
      Some [''function_declaration'', ''method_declaration'', ''type_declaration'', ''type_spec'']"
    by (simp add: codeBlockNodeTypes_def)
  ultimately show ?thesis by (simp add: nodeTypesFor_def)
qed

text \<open>
  Claim C5. \<open>treeSitterExtractCode\<close> returns the empty string when the file cannot be
  read, when the parser returns no tree, and when no node of the tree has a type in the
  table of the language and rows around the target line. Otherwise it returns the bytes
  from \<open>StartByte\<close> up to \<open>EndByte\<close> of the last such node of the pre-order walk.
  That node is a node of the tree, it is such a node, and no node below it is one: of
  declarations nested in one another the innermost is returned. It is the last match and
  not the tightest: of two declarations around the line neither of which is below the
  other, the later one of the walk is returned, whatever their sizes. The table is the
  row of the language in \<open>codeBlockNodeTypes\<close>, and the row of Go for a language that
  has none. (\<open>slice\<close> is the text between the two offsets whenever they lie in the
  source, as those of a parsed tree do.)
\<close>

theorem treeSitterExtractCode_last_match:
  "treeSitterExtractCode h sourceFile line lang =
     (case ReadFile h sourceFile of
        None \<Rightarrow> Inr ''''
      | Some sourceCode \<Rightarrow>
          (case Parse h sourceCode of
             None \<Rightarrow> Inr ''''
           | Some root \<Rightarrow>
               (case filter (declaresLine (nodeTypesFor lang) line) (preorder root) of
                  [] \<Rightarrow> Inr ''''
                | m # ms \<Rightarrow>
                    slice sourceCode (unat (StartByte (last (m # ms))))
                      (unat (EndByte (last (m # ms))))))) \<and>
   (filter (declaresLine (nodeTypesFor lang) line) (preorder root) \<noteq> [] \<longrightarrow>
      last (filter (declaresLine (nodeTypesFor lang) line) (preorder root)) \<in> set (preorder root) \<and>
      declaresLine (nodeTypesFor lang) line
        (last (filter (declaresLine (nodeTypesFor lang) line) (preorder root))) \<and>
      (\<forall>d\<in>set (descendants
                  (last (filter (declaresLine (nodeTypesFor lang) line) (preorder root)))).
         \<not> declaresLine (nodeTypesFor lang) line d)) \<and>
   (lo \<le> hi \<and> hi \<le> length s \<longrightarrow> slice s lo hi = Inr (take (hi - lo) (drop lo s))) \<and>
   map (\<lambda>l. (l, nodeTypesFor l)) (map fst codeBlockNodeTypes) = codeBlockNodeTypes \<and>
   (lang \<notin> set (map fst codeBlockNodeTypes) \<longrightarrow> nodeTypesFor lang = nodeTypesFor ''go'') \<and>
   nodeTypesFor ''go'' =
     [''function_declaration'', ''method_declaration'', ''type_declaration'', ''type_spec''] \<and>
   nodeTypesFor ''python'' = [''function_definition'', ''class_definition'']"
proof (intro conjI)
  show "treeSitterExtractCode h sourceFile line lang =
     (case ReadFile h sourceFile of
        None \<Rightarrow> Inr ''''
      | Some sourceCode \<Rightarrow>
          (case Parse h sourceCode of
             None \<Rightarrow> Inr ''''
           | Some root \<Rightarrow>
               (case filter (declaresLine (nodeTypesFor lang) line) (preorder root) of
                  [] \<Rightarrow> Inr ''''
                | m # ms \<Rightarrow>
                    slice sourceCode (unat (StartByte (last (m # ms))))
                      (unat (EndByte (last (m # ms)))))))"
    unfolding treeSitterExtractCode_def Let_def dfsWalk_preorder fold_recordMatch
    by (simp split: option.splits list.splits)
  show "filter (declaresLine (nodeTypesFor lang) line) (preorder root) \<noteq> [] \<longrightarrow>
      last (filter (declaresLine (nodeTypesFor lang) line) (preorder root)) \<in> set (preorder root) \<and>
      declaresLine (nodeTypesFor lang) line
        (last (filter (declaresLine (nodeTypesFor lang) line) (preorder root))) \<and>
      (\<forall>d\<in>set (descendants
                  (last (filter (declaresLine (nodeTypesFor lang) line) (preorder root)))).
         \<not> declaresLine (nodeTypesFor lang) line d)"
    using innermost [of "declaresLine (nodeTypesFor lang) line" root]
      last_filter_in [of "declaresLine (nodeTypesFor lang) line" "preorder root"]
    by blast
  show "lo \<le> hi \<and> hi \<le> length s \<longrightarrow> slice s lo hi = Inr (take (hi - lo) (drop lo s))"
    by (simp add: slice_def)
  show "map (\<lambda>l. (l, nodeTypesFor l)) (map fst codeBlockNodeTypes) = codeBlockNodeTypes"
    by (rule nodeTypesFor_rows)
  show "lang \<notin> set (map fst codeBlockNodeTypes) \<longrightarrow> nodeTypesFor lang = nodeTypesFor ''go''"
    using nodeTypesFor_fallback by blast
  show "nodeTypesFor ''go'' =
     [''function_declaration'', ''method_declaration'', ''type_declaration'', ''type_spec'']"
    by (simp add: nodeTypesFor_def codeBlockNodeTypes_def)
  show "nodeTypesFor ''python'' = [''function_definition'', ''class_definition'']"
    by (simp add: nodeTypesFor_def codeBlockNodeTypes_def)
qed

theorem treeSitterExtractCode_last_match_witness:
  "treeSitterExtractCode exampleHost ''/src/a.go'' 2 ''go'' = Inr ''T int'' \<and>
   treeSitterExtractCode exampleHost ''/src/a.go'' 3 ''go'' =
     Inr (''func A() {'' @ [CHR 0x0A] @ ''  type T int'' @ [CHR 0x0A] @ ''}'') \<and>
   treeSitterExtractCode exampleHost ''/src/a.go'' 9 ''go'' = Inr '''' \<and>
   treeSitterExtractCode exampleHost ''/src/b.go'' 2 ''go'' = Inr '''' \<and>
   treeSitterExtractCode exampleHost ''/src/a.go'' 2 ''python'' = Inr '''' \<and>
   treeSitterExtractCode exampleHost ''/src/a.go'' 2 ''cobol'' = Inr ''T int'' \<and>
   last (filter (declaresLine (nodeTypesFor ''go'') 2) (preorder exampleTree)) =
     Node ''type_spec'' 1 1 18 23 [] \<and>
   slice exampleSource 18 23 = Inr ''T int''"
proof -
  have p: "preorder exampleTree =
     [exampleTree,
      Node ''function_declaration'' 0 2 0 25
          [Node ''block'' 0 2 9 25
             [Node ''type_declaration'' 1 1 13 23 [Node ''type_spec'' 1 1 18 23 []]]],
      Node ''block'' 0 2 9 25
             [Node ''type_declaration'' 1 1 13 23 [Node ''type_spec'' 1 1 18 23 []]],
      Node ''type_declaration'' 1 1 13 23 [Node ''type_spec'' 1 1 18 23 []],
      Node ''type_spec'' 1 1 18 23 []]"
    by (simp add: exampleTree_def)
  note t = treeSitterExtractCode_last_match
  have n: "nodeTypesFor ''go'' =
     [''function_declaration'', ''method_declaration'', ''type_declaration'', ''type_spec'']"
    using t [of exampleHost "''/src/a.go''" 2 "''go''" exampleTree 18 23 exampleSource]
    by (rule conjunct2 [THEN conjunct2, THEN conjunct2, THEN conjunct2, THEN conjunct2,
          THEN conjunct1])
  have y: "nodeTypesFor ''python'' = [''function_definition'', ''class_definition'']"
    using t [of exampleHost "''/src/a.go''" 2 "''go''" exampleTree 18 23 exampleSource]
    by (rule conjunct2 [THEN conjunct2, THEN conjunct2, THEN conjunct2, THEN conjunct2,
          THEN conjunct2])
  have "''cobol'' \<notin> set (map fst codeBlockNodeTypes)"
    by (simp add: codeBlockNodeTypes_def)
  with t [of exampleHost "''/src/a.go''" 2 "''cobol''" exampleTree 18 23 exampleSource]
  have "nodeTypesFor ''cobol'' = nodeTypesFor ''go''" by blast
  then have f: "nodeTypesFor ''cobol'' =
     [''function_declaration'', ''method_declaration'', ''type_declaration'', ''type_spec'']"
    by (simp only: n)
  have a: "treeSitterExtractCode exampleHost ''/src/a.go'' 2 ''go'' = Inr ''T int''"
    using t [of exampleHost "''/src/a.go''" 2 "''go''" exampleTree 0 0 "[]", THEN conjunct1]
    by (simp add: exampleHost_def p n declaresLine_def slice_def exampleSource_def exampleTree_def)
  have b: "treeSitterExtractCode exampleHost ''/src/a.go'' 3 ''go'' =
     Inr (''func A() {'' @ [CHR 0x0A] @ ''  type T int'' @ [CHR 0x0A] @ ''}'')"
    using t [of exampleHost "''/src/a.go''" 3 "''go''" exampleTree 0 0 "[]", THEN conjunct1]
    by (simp add: exampleHost_def p n declaresLine_def slice_def exampleSource_def exampleTree_def)
  have c: "treeSitterExtractCode exampleHost ''/src/a.go'' 9 ''go'' = Inr ''''"
    using t [of exampleHost "''/src/a.go''" 9 "''go''" exampleTree 0 0 "[]", THEN conjunct1]
    by (simp add: exampleHost_def p n declaresLine_def exampleTree_def)
  have d: "treeSitterExtractCode exampleHost ''/src/b.go'' 2 ''go'' = Inr ''''"
    using t [of exampleHost "''/src/b.go''" 2 "''go''" exampleTree 0 0 "[]", THEN conjunct1]
    by (simp add: exampleHost_def)
  have e: "treeSitterExtractCode exampleHost ''/src/a.go'' 2 ''python'' = Inr ''''"
    using t [of exampleHost "''/src/a.go''" 2 "''python''" exampleTree 0 0 "[]", THEN conjunct1]
    by (simp add: exampleHost_def p y declaresLine_def exampleTree_def)
  have g: "treeSitterExtractCode exampleHost ''/src/a.go'' 2 ''cobol'' = Inr ''T int''"
    using t [of exampleHost "''/src/a.go''" 2 "''cobol''" exampleTree 0 0 "[]", THEN conjunct1]
    by (simp add: exampleHost_def p f declaresLine_def slice_def exampleSource_def exampleTree_def)
  have l: "last (filter (declaresLine (nodeTypesFor ''go'') 2) (preorder exampleTree)) =
     Node ''type_spec'' 1 1 18 23 []"
    by (simp add: p n declaresLine_def exampleTree_def)
  have "(18::nat) \<le> 23 \<and> 23 \<le> length exampleSource" by (simp add: exampleSource_def)
  with t [of exampleHost "''/src/a.go''" 2 "''go''" exampleTree 18 23 exampleSource]
  have "slice exampleSource 18 23 = Inr (take (23 - 18) (drop 18 exampleSource))" by blast
  then have s: "slice exampleSource 18 23 = Inr ''T int''" by (simp add: exampleSource_def)
  from a b c d e g l s show ?thesis by simp
qed

theorem last_match_not_tightest_counterexample:
  "treeSitterExtractCode siblingHost ''/src/s.go'' 1 ''go'' =
     Inr (''func b(){'' @ [CHR 0x0A] @ ''}'') \<and>
   Parse siblingHost siblingSource = Some siblingTree \<and>
   Children siblingTree = [declA, declB] \<and>
   declaresLine (nodeTypesFor ''go'') 1 declA \<and>
   declaresLine (nodeTypesFor ''go'') 1 declB \<and>
   StartRow declB \<le> StartRow declA \<and> EndRow declA < EndRow declB \<and>
   unat (EndByte declA) - unat (StartByte declA) < unat (EndByte declB) - unat (StartByte declB) \<and>
   declA \<notin> set (preorder declB) \<and>
   slice siblingSource (unat (StartByte declA)) (unat (EndByte declA)) = Inr ''func a(){}''"
proof -
  have n: "nodeTypesFor ''go'' =
     [''function_declaration'', ''method_declaration'', ''type_declaration'', ''type_spec'']"
    by (simp add: nodeTypesFor_def codeBlockNodeTypes_def)
  have a: "treeSitterExtractCode siblingHost ''/src/s.go'' 1 ''go'' =
     Inr (''func b(){'' @ [CHR 0x0A] @ ''}'')"
    by (simp add: treeSitterExtractCode_def siblingHost_def siblingTree_def declA_def declB_def
        n recordMatch_def slice_def siblingSource_def Let_def)
  have b: "Parse siblingHost siblingSource = Some siblingTree"
    "Children siblingTree = [declA, declB]"
    by (simp_all add: siblingHost_def siblingTree_def)
  have c: "declaresLine (nodeTypesFor ''go'') 1 declA" "declaresLine (nodeTypesFor ''go'') 1 declB"
    by (simp_all add: declaresLine_def n declA_def declB_def)
  have d: "StartRow declB \<le> StartRow declA" "EndRow declA < EndRow declB"
    "unat (EndByte declA) - unat (StartByte declA) < unat (EndByte declB) - unat (StartByte declB)"
    "declA \<notin> set (preorder declB)"
    by (simp_all add: declA_def declB_def)
  have e: "slice siblingSource (unat (StartByte declA)) (unat (EndByte declA)) = Inr ''func a(){}''"
    by (simp add: slice_def declA_def siblingSource_def)
  from a b c d e show ?thesis by simp
qed

section \<open>The second pass, list by list\<close>

lemma set_addUnique: "set (addUnique x xs) = insert x (set xs)"
  by (auto simp: addUnique_def)

lemma length_linkOccurrence [simp]:
  "length (linkOccurrence sc idx occ other hp) = length hp"
  by (simp add: linkOccurrence_def Let_def split: option.splits)

lemma Symbol_upd_dep:
  "Symbol ((hp[a := (hp ! a)\<lparr>DependenceOn := d\<rparr>]) ! c) = Symbol (hp ! c)"
  by (cases "a < length hp") (simp_all add: nth_list_update list_update_beyond)

lemma Symbol_upd_ref:
  "Symbol ((hp[a := (hp ! a)\<lparr>ReferenceBy := d\<rparr>]) ! c) = Symbol (hp ! c)"
  by (cases "a < length hp") (simp_all add: nth_list_update list_update_beyond)

lemma Symbol_linkOccurrence [simp]:
  "Symbol (linkOccurrence sc idx occ other hp ! c) = Symbol (hp ! c)"
  by (simp add: linkOccurrence_def Let_def Symbol_upd_dep Symbol_upd_ref split: option.splits)

lemma Dep_upd_ref:
  "DependenceOn ((hp[a := (hp ! a)\<lparr>ReferenceBy := d\<rparr>]) ! c) = DependenceOn (hp ! c)"
  by (cases "a < length hp") (simp_all add: nth_list_update list_update_beyond)

lemma Ref_upd_dep:
  "ReferenceBy ((hp[a := (hp ! a)\<lparr>DependenceOn := d\<rparr>]) ! c) = ReferenceBy (hp ! c)"
  by (cases "a < length hp") (simp_all add: nth_list_update list_update_beyond)

lemma Dep_upd_dep:
  "DependenceOn ((hp[a := (hp ! a)\<lparr>DependenceOn := d\<rparr>]) ! c) =
     (if c = a \<and> a < length hp then d else DependenceOn (hp ! c))"
  by (cases "a < length hp") (simp_all add: nth_list_update list_update_beyond)

lemma Ref_upd_ref:
  "ReferenceBy ((hp[a := (hp ! a)\<lparr>ReferenceBy := d\<rparr>]) ! c) =
     (if c = a \<and> a < length hp then d else ReferenceBy (hp ! c))"
  by (cases "a < length hp") (simp_all add: nth_list_update list_update_beyond)

lemma Dep_linkOccurrence:
  "set (DependenceOn (linkOccurrence sc idx occ other hp ! c)) =
     set (DependenceOn (hp ! c)) \<union>
     (if inScope occ other \<and> map_of idx (occ_Symbol occ) = Some c \<and>
         \<not> IsLocalSymbol sc (occ_Symbol other) \<and> c < length hp
      then {occ_Symbol other} else {})"
  by (auto simp: linkOccurrence_def inScope_def Let_def Dep_upd_ref Dep_upd_dep set_addUnique
      split: option.splits)

lemma Ref_linkOccurrence:
  "set (ReferenceBy (linkOccurrence sc idx occ other hp ! c)) =
     set (ReferenceBy (hp ! c)) \<union>
     (if inScope occ other \<and> map_of idx (occ_Symbol other) = Some c \<and> c < length hp
      then {occ_Symbol occ} else {})"
  by (auto simp: linkOccurrence_def inScope_def Let_def Ref_upd_dep Ref_upd_ref set_addUnique
      split: option.splits)


lemma fold_union_inv:
  assumes "\<And>x s. x \<in> set xs \<Longrightarrow> I s \<Longrightarrow> I (f x s) \<and> F (f x s) = F s \<union> g x" and "I s"
  shows "I (fold f xs s) \<and> F (fold f xs s) = F s \<union> (\<Union>x\<in>set xs. g x)"
  using assms
proof (induction xs arbitrary: s)
  case Nil
  then show ?case by simp
next
  case (Cons x xs)
  have step: "I (f x s) \<and> F (f x s) = F s \<union> g x"
    using Cons.prems by simp
  have "I (fold f xs (f x s)) \<and> F (fold f xs (f x s)) = F (f x s) \<union> (\<Union>x\<in>set xs. g x)"
    using Cons.prems(1) step by (intro Cons.IH) simp_all
  with step show ?case by auto
qed

lemma scanScope_effect:
  assumes "length hp = n" "c < n"
  shows "length (scanScope sc idx doc occ hp) = n \<and>
     set (DependenceOn (scanScope sc idx doc occ hp ! c)) =
       set (DependenceOn (hp ! c)) \<union>
       (if isScope sc occ then (\<Union>other\<in>set (doc_Occurrences doc). depAdd sc idx c occ other) else {})"
proof (cases "isScope sc occ")
  case False
  then show ?thesis using assms by (auto simp: scanScope_def isScope_def)
next
  case True
  have "length (fold (linkOccurrence sc idx occ) (doc_Occurrences doc) hp) = n \<and>
     set (DependenceOn (fold (linkOccurrence sc idx occ) (doc_Occurrences doc) hp ! c)) =
       set (DependenceOn (hp ! c)) \<union> (\<Union>other\<in>set (doc_Occurrences doc). depAdd sc idx c occ other)"
    by (rule fold_union_inv [where I = "\<lambda>hp. length hp = n"])
       (use assms in \<open>simp_all add: Dep_linkOccurrence depAdd_def\<close>)
  with True show ?thesis by (simp add: scanScope_def isScope_def)
qed


lemma scanScope_effect_ref:
  assumes "length hp = n" "c < n"
  shows "length (scanScope sc idx doc occ hp) = n \<and>
     set (ReferenceBy (scanScope sc idx doc occ hp ! c)) =
       set (ReferenceBy (hp ! c)) \<union>
       (if isScope sc occ then (\<Union>other\<in>set (doc_Occurrences doc). refAdd idx c occ other) else {})"
proof (cases "isScope sc occ")
  case False
  then show ?thesis using assms by (auto simp: scanScope_def isScope_def)
next
  case True
  have "length (fold (linkOccurrence sc idx occ) (doc_Occurrences doc) hp) = n \<and>
     set (ReferenceBy (fold (linkOccurrence sc idx occ) (doc_Occurrences doc) hp ! c)) =
       set (ReferenceBy (hp ! c)) \<union> (\<Union>other\<in>set (doc_Occurrences doc). refAdd idx c occ other)"
    by (rule fold_union_inv [where I = "\<lambda>hp. length hp = n"])
       (use assms in \<open>simp_all add: Ref_linkOccurrence refAdd_def\<close>)
  with True show ?thesis by (simp add: scanScope_def isScope_def)
qed

lemma crossReference_dep:
  assumes "length hp = n" "c < n"
  shows "length (crossReference sc idx docs hp) = n \<and>
     set (DependenceOn (crossReference sc idx docs hp ! c)) =
       set (DependenceOn (hp ! c)) \<union>
       (\<Union>doc\<in>set docs. \<Union>occ\<in>set (doc_Occurrences doc).
          if isScope sc occ then (\<Union>other\<in>set (doc_Occurrences doc). depAdd sc idx c occ other)
          else {})"
  unfolding crossReference_def
proof (rule fold_union_inv [where I = "\<lambda>hp. length hp = n"])
  fix doc and s :: "rst_Symbol list"
  assume "doc \<in> set docs" and "length s = n"
  then show "length (fold (scanScope sc idx doc) (doc_Occurrences doc) s) = n \<and>
     set (DependenceOn (fold (scanScope sc idx doc) (doc_Occurrences doc) s ! c)) =
       set (DependenceOn (s ! c)) \<union>
       (\<Union>occ\<in>set (doc_Occurrences doc).
          if isScope sc occ then (\<Union>other\<in>set (doc_Occurrences doc). depAdd sc idx c occ other)
          else {})"
    by (intro fold_union_inv [where I = "\<lambda>hp. length hp = n"] scanScope_effect assms(2))
next
  show "length hp = n" by (rule assms(1))
qed

lemma crossReference_ref:
  assumes "length hp = n" "c < n"
  shows "length (crossReference sc idx docs hp) = n \<and>
     set (ReferenceBy (crossReference sc idx docs hp ! c)) =
       set (ReferenceBy (hp ! c)) \<union>
       (\<Union>doc\<in>set docs. \<Union>occ\<in>set (doc_Occurrences doc).
          if isScope sc occ then (\<Union>other\<in>set (doc_Occurrences doc). refAdd idx c occ other)
          else {})"
  unfolding crossReference_def
proof (rule fold_union_inv [where I = "\<lambda>hp. length hp = n"])
  fix doc and s :: "rst_Symbol list"
  assume "doc \<in> set docs" and "length s = n"
  then show "length (fold (scanScope sc idx doc) (doc_Occurrences doc) s) = n \<and>
     set (ReferenceBy (fold (scanScope sc idx doc) (doc_Occurrences doc) s ! c)) =
       set (ReferenceBy (s ! c)) \<union>
       (\<Union>occ\<in>set (doc_Occurrences doc).
          if isScope sc occ then (\<Union>other\<in>set (doc_Occurrences doc). refAdd idx c occ other)
          else {})"
    by (intro fold_union_inv [where I = "\<lambda>hp. length hp = n"] scanScope_effect_ref assms(2))
next
  show "length hp = n" by (rule assms(1))
qed

lemma dep_union_char:
  "(\<Union>doc\<in>set docs. \<Union>occ\<in>set (doc_Occurrences doc).
          if isScope sc occ then (\<Union>other\<in>set (doc_Occurrences doc). depAdd sc idx c occ other)
          else {}) =
   {x. \<exists>doc occ other. doc \<in> set docs \<and> scopePair sc doc occ other \<and>
         map_of idx (occ_Symbol occ) = Some c \<and> occ_Symbol other = x \<and> \<not> IsLocalSymbol sc x}"
  (is "?L = ?R")
proof (rule set_eqI, rule iffI)
  fix x assume "x \<in> ?L"
  then obtain doc occ other where "doc \<in> set docs" "occ \<in> set (doc_Occurrences doc)"
    "isScope sc occ" "other \<in> set (doc_Occurrences doc)" "x \<in> depAdd sc idx c occ other"
    by (auto split: if_splits)
  then show "x \<in> ?R"
    by (auto simp: depAdd_def scopePair_def isScope_def split: if_splits)
next
  fix x assume "x \<in> ?R"
  then obtain doc occ other where d: "doc \<in> set docs" "scopePair sc doc occ other"
    "map_of idx (occ_Symbol occ) = Some c" "occ_Symbol other = x" "\<not> IsLocalSymbol sc x"
    by blast
  then have "occ \<in> set (doc_Occurrences doc)" "isScope sc occ" "other \<in> set (doc_Occurrences doc)"
    "x \<in> depAdd sc idx c occ other"
    by (auto simp: depAdd_def scopePair_def isScope_def)
  with d(1) show "x \<in> ?L" by auto
qed

lemma ref_union_char:
  "(\<Union>doc\<in>set docs. \<Union>occ\<in>set (doc_Occurrences doc).
          if isScope sc occ then (\<Union>other\<in>set (doc_Occurrences doc). refAdd idx c occ other)
          else {}) =
   {x. \<exists>doc occ other. doc \<in> set docs \<and> scopePair sc doc occ other \<and>
         map_of idx (occ_Symbol other) = Some c \<and> occ_Symbol occ = x}"
  (is "?L = ?R")
proof (rule set_eqI, rule iffI)
  fix x assume "x \<in> ?L"
  then obtain doc occ other where "doc \<in> set docs" "occ \<in> set (doc_Occurrences doc)"
    "isScope sc occ" "other \<in> set (doc_Occurrences doc)" "x \<in> refAdd idx c occ other"
    by (auto split: if_splits)
  then show "x \<in> ?R"
    by (auto simp: refAdd_def scopePair_def isScope_def split: if_splits)
next
  fix x assume "x \<in> ?R"
  then obtain doc occ other where d: "doc \<in> set docs" "scopePair sc doc occ other"
    "map_of idx (occ_Symbol other) = Some c" "occ_Symbol occ = x"
    by blast
  then have "occ \<in> set (doc_Occurrences doc)" "isScope sc occ" "other \<in> set (doc_Occurrences doc)"
    "x \<in> refAdd idx c occ other"
    by (auto simp: refAdd_def scopePair_def isScope_def)
  with d(1) show "x \<in> ?L" by auto
qed

section \<open>The first pass: what holds of the store and the index\<close>

lemma foldE_inv:
  assumes "\<And>x s s'. x \<in> set xs \<Longrightarrow> I s \<Longrightarrow> f x s = Inr s' \<Longrightarrow> I s'"
    and "I s" and "foldE f xs s = Inr s'"
  shows "I s'"
  using assms
proof (induction xs arbitrary: s)
  case Nil
  then show ?case by simp
next
  case (Cons x xs)
  from Cons.prems(3) obtain s1 where s1: "f x s = Inr s1" "foldE f xs s1 = Inr s'"
    by (auto split: sum.splits)
  have i1: "I s1" using Cons.prems(1) [of x s s1] Cons.prems(2) s1(1) by simp
  have step: "I t'" if "y \<in> set xs" "I t" "f y t = Inr t'" for y t t'
    using Cons.prems(1) [of y t t'] that by simp
  show ?case by (rule Cons.IH [OF step i1 s1(2)])
qed

lemma foldE_error:
  "foldE f xs s = Inl e \<Longrightarrow> \<exists>x\<in>set xs. \<exists>s'. f x s' = Inl e"
  by (induction xs arbitrary: s) (auto split: sum.splits)

lemma set_update_subset: "set (AList.update k v al) \<subseteq> insert (k, v) (set al)"
  by (induction al) auto

lemma attachOccurrence_fields [simp]:
  "Symbol (attachOccurrence occIndex s) = Symbol s"
  "DependenceOn (attachOccurrence occIndex s) = DependenceOn s"
  "ReferenceBy (attachOccurrence occIndex s) = ReferenceBy s"
  by (simp_all add: attachOccurrence_def Let_def split: option.splits)

lemma attachCode_fields:
  "attachCode h projectRoot doc s = Inr s' \<Longrightarrow>
   Symbol s' = Symbol s \<and> DependenceOn s' = DependenceOn s \<and> ReferenceBy s' = ReferenceBy s \<and>
   Kind s' = Kind s \<and> Line s' = Line s"
  by (auto simp: attachCode_def Let_def split: if_splits sum.splits)

lemma newSymbol_fields:
  "newSymbol sc h projectRoot doc occIndex sinfo = Inr s \<Longrightarrow>
   Symbol s = si_Symbol sinfo \<and> DependenceOn s = [] \<and> ReferenceBy s = []"
  by (auto simp: newSymbol_def split: sum.splits dest!: attachCode_fields)

lemma refsOK_append: "refsOK hp syms \<Longrightarrow> refsOK (hp @ [s]) syms"
  by (auto simp: refsOK_def nth_append)

lemma refsOK_update:
  "refsOK hp syms \<Longrightarrow> Symbol s = k \<Longrightarrow> refsOK (hp @ [s]) (AList.update k (length hp) syms)"
proof -
  assume a: "refsOK hp syms" "Symbol s = k"
  have "\<forall>(k', a')\<in>insert (k, length hp) (set syms). a' < length (hp @ [s]) \<and> Symbol ((hp @ [s]) ! a') = k'"
    using a by (auto simp: refsOK_def nth_append)
  then show ?thesis
    unfolding refsOK_def using set_update_subset [of k "length hp" syms] by blast
qed

lemma idxOK_update:
  assumes ok: "idxOK sc idx hp" and s: "Symbol s = k" and nl: "\<not> IsLocalSymbol sc k"
  shows "idxOK sc (AList.update k (length hp) idx) (hp @ [s])"
  unfolding idxOK_def
proof (intro allI impI)
  fix k' a
  assume m: "map_of (AList.update k (length hp) idx) k' = Some a"
  show "a < length (hp @ [s]) \<and> Symbol ((hp @ [s]) ! a) = k' \<and> \<not> IsLocalSymbol sc k'"
  proof (cases "k' = k")
    case True
    with m have "a = length hp" by (simp add: update_conv')
    with True s nl show ?thesis by simp
  next
    case False
    with m have "map_of idx k' = Some a" by (simp add: update_conv')
    with ok have "a < length hp" "Symbol (hp ! a) = k'" "\<not> IsLocalSymbol sc k'"
      unfolding idxOK_def by blast+
    then show ?thesis by (simp add: nth_append)
  qed
qed

lemma symbolStep_inv:
  assumes "symbolStep sc h projectRoot doc occIndex sinfo (st, syms) = Inr (st', syms')"
    and "stateOK sc st" and "refsOK (heap st) syms"
  shows "stateOK sc st' \<and> refsOK (heap st') syms'"
proof (cases "IsLocalSymbol sc (si_Symbol sinfo)")
  case True
  with assms show ?thesis by (simp add: symbolStep_def)
next
  case False
  with assms(1) obtain s where s: "newSymbol sc h projectRoot doc occIndex sinfo = Inr s"
    and st': "st' = st\<lparr>heap := heap st @ [s],
                 symbolIndex := AList.update (si_Symbol sinfo) (length (heap st)) (symbolIndex st)\<rparr>"
    and syms': "syms' = AList.update (si_Symbol sinfo) (length (heap st)) syms"
    by (auto simp: symbolStep_def Let_def split: sum.splits)
  from newSymbol_fields [OF s] have f: "Symbol s = si_Symbol sinfo" "DependenceOn s = []" "ReferenceBy s = []"
    by simp_all
  have 1: "idxOK sc (symbolIndex st') (heap st')"
    using assms(2) f(1) False by (simp add: st' stateOK_def idxOK_update)
  have 2: "freshLists (heap st')"
    using assms(2) f by (simp add: st' stateOK_def freshLists_def)
  have 3: "\<forall>(p, rd)\<in>set (documents st'). refsOK (heap st') (rd_Symbols rd)"
    using assms(2) by (auto simp: st' stateOK_def refsOK_append)
  have 4: "refsOK (heap st') syms'"
    using assms(3) f(1) by (simp add: st' syms' refsOK_update)
  from 1 2 3 4 show ?thesis by (simp add: stateOK_def)
qed


lemma documentStep_inv:
  assumes d: "documentStep sc h projectRoot doc st = Inr st'" and ok0: "stateOK sc st"
  shows "stateOK sc st'"
proof -
  define occIndex where "occIndex = buildOccIndex sc (doc_Occurrences doc)"
  define r where "r = foldE (symbolStep sc h projectRoot doc occIndex) (doc_Symbols doc) (st, [])"
  have d': "(case r of Inl p \<Rightarrow> Inl p
             | Inr (st', syms) \<Rightarrow>
                 Inr (st'\<lparr>documents := AList.update (doc_RelativePath doc)
                      \<lparr>rd_RelativePath = doc_RelativePath doc, rd_Symbols = syms\<rparr>
                      (documents st')\<rparr>)) = Inr st'"
    using d unfolding documentStep_def Let_def r_def occIndex_def .
  then obtain q where q: "r = Inr q" by (cases r) simp_all
  obtain st1 syms where q': "q = (st1, syms)" by (cases q)
  from d' q q' have st': "st' = st1\<lparr>documents := AList.update (doc_RelativePath doc)
                      \<lparr>rd_RelativePath = doc_RelativePath doc, rd_Symbols = syms\<rparr> (documents st1)\<rparr>"
    by simp
  have f: "foldE (symbolStep sc h projectRoot doc occIndex) (doc_Symbols doc) (st, []) = Inr (st1, syms)"
    using q q' r_def by simp
  have "stateOK sc (fst (st1, syms)) \<and> refsOK (heap (fst (st1, syms))) (snd (st1, syms))"
  proof (rule foldE_inv [where I = "\<lambda>p. stateOK sc (fst p) \<and> refsOK (heap (fst p)) (snd p)", OF _ _ f])
    fix x and s s' :: "build_state \<times> (string \<times> nat) list"
    assume a: "stateOK sc (fst s) \<and> refsOK (heap (fst s)) (snd s)"
      and b: "symbolStep sc h projectRoot doc occIndex x s = Inr s'"
    obtain sa ya where s: "s = (sa, ya)" by (cases s)
    obtain sb yb where s': "s' = (sb, yb)" by (cases s')
    from b have "symbolStep sc h projectRoot doc occIndex x (sa, ya) = Inr (sb, yb)"
      by (simp only: s s')
    moreover from a have "stateOK sc sa" "refsOK (heap sa) ya" by (simp_all add: s)
    ultimately have "stateOK sc sb \<and> refsOK (heap sb) yb" by (rule symbolStep_inv)
    then show "stateOK sc (fst s') \<and> refsOK (heap (fst s')) (snd s')" by (simp add: s')
  next
    show "stateOK sc (fst (st, [])) \<and> refsOK (heap (fst (st, []))) (snd (st, []))"
      using ok0 by (simp add: refsOK_def)
  qed
  then have ok: "stateOK sc st1" "refsOK (heap st1) syms" by simp_all
  have sub: "set (documents st') \<subseteq>
      insert (doc_RelativePath doc, \<lparr>rd_RelativePath = doc_RelativePath doc, rd_Symbols = syms\<rparr>)
        (set (documents st1))"
    unfolding st' by (simp add: set_update_subset)
  have hp: "heap st' = heap st1" "symbolIndex st' = symbolIndex st1" by (simp_all add: st')
  have "refsOK (heap st') (rd_Symbols rd)" if "(p, rd) \<in> set (documents st')" for p rd
  proof -
    from that sub have "(p, rd) = (doc_RelativePath doc, \<lparr>rd_RelativePath = doc_RelativePath doc, rd_Symbols = syms\<rparr>)
        \<or> (p, rd) \<in> set (documents st1)" by blast
    then show ?thesis
    proof
      assume "(p, rd) = (doc_RelativePath doc, \<lparr>rd_RelativePath = doc_RelativePath doc, rd_Symbols = syms\<rparr>)"
      then show ?thesis using ok(2) hp by simp
    next
      assume "(p, rd) \<in> set (documents st1)"
      with ok(1) have "refsOK (heap st1) (rd_Symbols rd)" unfolding stateOK_def by blast
      then show ?thesis using hp by simp
    qed
  qed
  then have "\<forall>(p, rd)\<in>set (documents st'). refsOK (heap st') (rd_Symbols rd)" by blast
  with ok(1) hp show ?thesis by (simp add: stateOK_def)
qed

lemma symbolPass_inv:
  assumes "symbolPass sc h projectRoot docs = Inr st"
  shows "stateOK sc st"
proof (rule foldE_inv [where I = "stateOK sc", OF _ _ assms [unfolded symbolPass_def]])
  fix x s s'
  assume "stateOK sc s" "documentStep sc h projectRoot x s = Inr s'"
  then show "stateOK sc s'" using documentStep_inv by blast
next
  show "stateOK sc \<lparr>heap = [], symbolIndex = [], documents = []\<rparr>"
    by (simp add: stateOK_def idxOK_def freshLists_def)
qed

section \<open>The table when the build ends\<close>

lemma fold_preserve:
  "(\<And>x s. F (f x s) = F s) \<Longrightarrow> F (fold f xs s) = F s"
  by (induction xs arbitrary: s) simp_all

lemma Symbol_scanScope [simp]: "Symbol (scanScope sc idx doc occ hp ! c) = Symbol (hp ! c)"
  unfolding scanScope_def
  by (simp add: fold_preserve [where F = "\<lambda>hp. Symbol (hp ! c)"])

lemma Symbol_crossReference [simp]:
  "Symbol (crossReference sc idx docs hp ! c) = Symbol (hp ! c)"
  unfolding crossReference_def
  by (intro fold_preserve [where F = "\<lambda>hp. Symbol (hp ! c)"]) simp

lemma length_scanScope [simp]: "length (scanScope sc idx doc occ hp) = length hp"
  unfolding scanScope_def
  by (simp add: fold_preserve [where F = length])

lemma length_crossReference [simp]: "length (crossReference sc idx docs hp) = length hp"
  unfolding crossReference_def
  by (intro fold_preserve [where F = length]) simp

lemma finalState_split:
  assumes "finalState sc h projectRoot docs = Inr st"
  obtains st0 where "symbolPass sc h projectRoot docs = Inr st0"
    and "st = st0\<lparr>heap := crossReference sc (symbolIndex st0) docs (heap st0)\<rparr>"
  using assms unfolding finalState_def by (cases "symbolPass sc h projectRoot docs") simp_all

lemma finalState_cell:
  assumes fs: "finalState sc h projectRoot docs = Inr st" and c: "c < length (heap st)"
  shows "set (DependenceOn (heap st ! c)) =
           {x. \<exists>doc occ other. doc \<in> set docs \<and> scopePair sc doc occ other \<and>
                 map_of (symbolIndex st) (occ_Symbol occ) = Some c \<and> occ_Symbol other = x \<and>
                 \<not> IsLocalSymbol sc x}"
    and "set (ReferenceBy (heap st ! c)) =
           {x. \<exists>doc occ other. doc \<in> set docs \<and> scopePair sc doc occ other \<and>
                 map_of (symbolIndex st) (occ_Symbol other) = Some c \<and> occ_Symbol occ = x}"
proof -
  from fs obtain st0 where p: "symbolPass sc h projectRoot docs = Inr st0"
    and st: "st = st0\<lparr>heap := crossReference sc (symbolIndex st0) docs (heap st0)\<rparr>"
    by (rule finalState_split)
  have ok: "stateOK sc st0" using p by (rule symbolPass_inv)
  have c0: "c < length (heap st0)" using c by (simp add: st)
  then have "heap st0 ! c \<in> set (heap st0)" by simp
  with ok have e: "DependenceOn (heap st0 ! c) = []" "ReferenceBy (heap st0 ! c) = []"
    unfolding stateOK_def freshLists_def by blast+
  show "set (DependenceOn (heap st ! c)) =
           {x. \<exists>doc occ other. doc \<in> set docs \<and> scopePair sc doc occ other \<and>
                 map_of (symbolIndex st) (occ_Symbol occ) = Some c \<and> occ_Symbol other = x \<and>
                 \<not> IsLocalSymbol sc x}"
  proof -
    have "set (DependenceOn (crossReference sc (symbolIndex st0) docs (heap st0) ! c)) =
       set (DependenceOn (heap st0 ! c)) \<union>
       {x. \<exists>doc occ other. doc \<in> set docs \<and> scopePair sc doc occ other \<and>
             map_of (symbolIndex st0) (occ_Symbol occ) = Some c \<and> occ_Symbol other = x \<and>
             \<not> IsLocalSymbol sc x}"
      using crossReference_dep [OF refl c0, of sc "symbolIndex st0" docs]
      unfolding dep_union_char by (rule conjunct2)
    then show ?thesis by (simp add: st e)
  qed
  show "set (ReferenceBy (heap st ! c)) =
           {x. \<exists>doc occ other. doc \<in> set docs \<and> scopePair sc doc occ other \<and>
                 map_of (symbolIndex st) (occ_Symbol other) = Some c \<and> occ_Symbol occ = x}"
  proof -
    have "set (ReferenceBy (crossReference sc (symbolIndex st0) docs (heap st0) ! c)) =
       set (ReferenceBy (heap st0 ! c)) \<union>
       {x. \<exists>doc occ other. doc \<in> set docs \<and> scopePair sc doc occ other \<and>
             map_of (symbolIndex st0) (occ_Symbol other) = Some c \<and> occ_Symbol occ = x}"
      using crossReference_ref [OF refl c0, of sc "symbolIndex st0" docs]
      unfolding ref_union_char by (rule conjunct2)
    then show ?thesis by (simp add: st e)
  qed
qed

lemma finalState_idxOK:
  assumes fs: "finalState sc h projectRoot docs = Inr st"
  shows "idxOK sc (symbolIndex st) (heap st)"
proof -
  from fs obtain st0 where p: "symbolPass sc h projectRoot docs = Inr st0"
    and st: "st = st0\<lparr>heap := crossReference sc (symbolIndex st0) docs (heap st0)\<rparr>"
    by (rule finalState_split)
  have "idxOK sc (symbolIndex st0) (heap st0)"
    using symbolPass_inv [OF p] by (simp add: stateOK_def)
  then show ?thesis by (simp add: st idxOK_def)
qed

lemma finalState_refsOK:
  assumes fs: "finalState sc h projectRoot docs = Inr st" and d: "(p, rd) \<in> set (documents st)"
  shows "refsOK (heap st) (rd_Symbols rd)"
proof -
  from fs obtain st0 where p: "symbolPass sc h projectRoot docs = Inr st0"
    and st: "st = st0\<lparr>heap := crossReference sc (symbolIndex st0) docs (heap st0)\<rparr>"
    by (rule finalState_split)
  from d have "(p, rd) \<in> set (documents st0)" by (simp add: st)
  with symbolPass_inv [OF p] have "refsOK (heap st0) (rd_Symbols rd)"
    unfolding stateOK_def by blast
  then show ?thesis by (simp add: st refsOK_def)
qed

lemma indexed_lists:
  assumes fs: "finalState sc h projectRoot docs = Inr st" and i: "indexedSymbol st k = Some S"
  shows "Symbol S = k" and "\<not> IsLocalSymbol sc k"
    and "set (DependenceOn S) = usedInScopeOf sc docs k"
    and "set (ReferenceBy S) = scopesAround sc docs k"
proof -
  from i obtain c where m: "map_of (symbolIndex st) k = Some c" and S: "S = heap st ! c"
    by (auto simp: indexedSymbol_def)
  have ok: "idxOK sc (symbolIndex st) (heap st)" using fs by (rule finalState_idxOK)
  with m have c: "c < length (heap st)" and sk: "Symbol (heap st ! c) = k" and nl: "\<not> IsLocalSymbol sc k"
    unfolding idxOK_def by blast+
  show "Symbol S = k" using sk S by simp
  show "\<not> IsLocalSymbol sc k" by (rule nl)
  have inj: "map_of (symbolIndex st) k' = Some c \<longleftrightarrow> k' = k" for k'
    using ok m sk unfolding idxOK_def by blast
  show "set (DependenceOn S) = usedInScopeOf sc docs k"
    unfolding S finalState_cell(1) [OF fs c] usedInScopeOf_def inj by blast
  show "set (ReferenceBy S) = scopesAround sc docs k"
    unfolding S finalState_cell(2) [OF fs c] scopesAround_def inj by blast
qed

lemma buildRST_split:
  assumes "buildRST sc h docs repoID projectRoot = Inr rst"
  obtains st d0 ds where "docs = d0 # ds" and "finalState sc h projectRoot docs = Inr st"
    and "rst = resolve repoID (doc_Language d0) st"
  using assms unfolding buildRST_def
  by (cases docs; cases "finalState sc h projectRoot docs") simp_all

lemma entry_in_store:
  assumes fs: "finalState sc h projectRoot docs = Inr st"
    and d: "(p, d) \<in> set (Documents (resolve repoID lang st))" and e: "(k, s) \<in> set (Symbols d)"
  obtains a where "a < length (heap st)" and "s = heap st ! a" and "Symbol s = k"
proof -
  from d obtain rd where rd: "(p, rd) \<in> set (documents st)" and dd: "d = resolveDocument (heap st) rd"
    by (auto simp: resolve_def)
  from e dd obtain a where a: "(k, a) \<in> set (rd_Symbols rd)" and s: "s = heap st ! a"
    by (auto simp: resolveDocument_def)
  from finalState_refsOK [OF fs rd] a have "a < length (heap st)" "Symbol (heap st ! a) = k"
    unfolding refsOK_def by blast+
  with s that show thesis by simp
qed

section \<open>Ids declared once\<close>

lemma map_of_dom: "map_of al k = Some a \<Longrightarrow> k \<in> fst ` set al"
  by (metis domI dom_map_of_conv_image_fst)

lemma symbols_allIndexed:
  assumes "foldE (symbolStep sc h projectRoot doc oi) ss (st, syms) = Inr (st', syms')"
    and "allIndexed st"
    and "\<forall>(k, a)\<in>set syms. map_of (symbolIndex st) k = Some a"
    and "distinct (filter (\<lambda>k. \<not> IsLocalSymbol sc k) (map si_Symbol ss))"
    and "fst ` set (symbolIndex st) \<inter> set (filter (\<lambda>k. \<not> IsLocalSymbol sc k) (map si_Symbol ss)) = {}"
  shows "allIndexed st' \<and> (\<forall>(k, a)\<in>set syms'. map_of (symbolIndex st') k = Some a) \<and>
         fst ` set (symbolIndex st') =
           fst ` set (symbolIndex st) \<union> set (filter (\<lambda>k. \<not> IsLocalSymbol sc k) (map si_Symbol ss)) \<and>
         documents st' = documents st"
  using assms
proof (induction ss arbitrary: st syms)
  case Nil
  then show ?case by simp
next
  case (Cons x ss)
  show ?case
  proof (cases "IsLocalSymbol sc (si_Symbol x)")
    case True
    then have "symbolStep sc h projectRoot doc oi x (st, syms) = Inr (st, syms)"
      by (simp add: symbolStep_def)
    with Cons.prems(1) have f: "foldE (symbolStep sc h projectRoot doc oi) ss (st, syms) = Inr (st', syms')"
      by simp
    from Cons.IH [OF f Cons.prems(2) Cons.prems(3)] Cons.prems(4,5) True
    show ?thesis by simp
  next
    case False
    let ?k = "si_Symbol x"
    let ?a = "length (heap st)"
    from Cons.prems(1) False obtain s where
      s: "newSymbol sc h projectRoot doc oi x = Inr s"
      by (auto simp: symbolStep_def split: sum.splits)
    define st1 where "st1 = st\<lparr>heap := heap st @ [s],
                 symbolIndex := AList.update ?k ?a (symbolIndex st)\<rparr>"
    define syms1 where "syms1 = AList.update ?k ?a syms"
    have step: "symbolStep sc h projectRoot doc oi x (st, syms) = Inr (st1, syms1)"
      using False s by (simp add: symbolStep_def Let_def st1_def syms1_def)
    with Cons.prems(1) have f: "foldE (symbolStep sc h projectRoot doc oi) ss (st1, syms1) = Inr (st', syms')"
      by simp
    from Cons.prems(4,5) False have fresh: "?k \<notin> fst ` set (symbolIndex st)"
      and nk: "?k \<notin> set (filter (\<lambda>k. \<not> IsLocalSymbol sc k) (map si_Symbol ss))"
      and dist: "distinct (filter (\<lambda>k. \<not> IsLocalSymbol sc k) (map si_Symbol ss))"
      and disj: "fst ` set (symbolIndex st) \<inter> set (filter (\<lambda>k. \<not> IsLocalSymbol sc k) (map si_Symbol ss)) = {}"
      by auto
    have keep: "map_of (symbolIndex st1) k = Some a" if "map_of (symbolIndex st) k = Some a" for k a
    proof -
      from that have "k \<in> fst ` set (symbolIndex st)" by (rule map_of_dom)
      with fresh have "k \<noteq> ?k" by blast
      with that show ?thesis by (simp add: st1_def update_conv')
    qed
    have new: "map_of (symbolIndex st1) ?k = Some ?a" by (simp add: st1_def update_conv')
    have 1: "allIndexed st1"
      unfolding allIndexed_def
    proof (clarify)
      fix p rd k a
      assume "(p, rd) \<in> set (documents st1)" and ka: "(k, a) \<in> set (rd_Symbols rd)"
      then have "(p, rd) \<in> set (documents st)" by (simp add: st1_def)
      with Cons.prems(2) ka have "map_of (symbolIndex st) k = Some a"
        unfolding allIndexed_def by blast
      then show "map_of (symbolIndex st1) k = Some a" by (rule keep)
    qed
    have 2: "\<forall>(k, a)\<in>set syms1. map_of (symbolIndex st1) k = Some a"
    proof (clarify)
      fix k a assume "(k, a) \<in> set syms1"
      then have "(k, a) = (?k, ?a) \<or> (k, a) \<in> set syms"
        using set_update_subset [of ?k ?a syms] unfolding syms1_def by blast
      then show "map_of (symbolIndex st1) k = Some a"
        using new keep Cons.prems(3) by auto
    qed
    have dom1: "fst ` set (symbolIndex st1) = insert ?k (fst ` set (symbolIndex st))"
      by (simp add: st1_def dom_update)
    have 5: "fst ` set (symbolIndex st1) \<inter> set (filter (\<lambda>k. \<not> IsLocalSymbol sc k) (map si_Symbol ss)) = {}"
      using dom1 nk disj by auto
    from Cons.IH [OF f 1 2 dist 5]
    have r: "allIndexed st'" "\<forall>(k, a)\<in>set syms'. map_of (symbolIndex st') k = Some a"
      "fst ` set (symbolIndex st') =
         fst ` set (symbolIndex st1) \<union> set (filter (\<lambda>k. \<not> IsLocalSymbol sc k) (map si_Symbol ss))"
      "documents st' = documents st1"
      by blast+
    have d: "documents st1 = documents st" by (simp add: st1_def)
    have e: "set (filter (\<lambda>k. \<not> IsLocalSymbol sc k) (map si_Symbol (x # ss))) =
        insert ?k (set (filter (\<lambda>k. \<not> IsLocalSymbol sc k) (map si_Symbol ss)))"
      using False by simp
    have "fst ` set (symbolIndex st') =
           fst ` set (symbolIndex st) \<union> set (filter (\<lambda>k. \<not> IsLocalSymbol sc k) (map si_Symbol (x # ss)))"
      unfolding r(3) dom1 e by blast
    with r(1,2,4) d show ?thesis by simp
  qed
qed


lemma documentStep_allIndexed:
  assumes d: "documentStep sc h projectRoot doc st = Inr st'"
    and ai: "allIndexed st"
    and dist: "distinct (filter (\<lambda>k. \<not> IsLocalSymbol sc k) (map si_Symbol (doc_Symbols doc)))"
    and disj: "fst ` set (symbolIndex st) \<inter>
        set (filter (\<lambda>k. \<not> IsLocalSymbol sc k) (map si_Symbol (doc_Symbols doc))) = {}"
  shows "allIndexed st' \<and>
         fst ` set (symbolIndex st') =
           fst ` set (symbolIndex st) \<union>
           set (filter (\<lambda>k. \<not> IsLocalSymbol sc k) (map si_Symbol (doc_Symbols doc)))"
proof -
  define occIndex where "occIndex = buildOccIndex sc (doc_Occurrences doc)"
  define r where "r = foldE (symbolStep sc h projectRoot doc occIndex) (doc_Symbols doc) (st, [])"
  have d': "(case r of Inl p \<Rightarrow> Inl p
             | Inr (st', syms) \<Rightarrow>
                 Inr (st'\<lparr>documents := AList.update (doc_RelativePath doc)
                      \<lparr>rd_RelativePath = doc_RelativePath doc, rd_Symbols = syms\<rparr>
                      (documents st')\<rparr>)) = Inr st'"
    using d unfolding documentStep_def Let_def r_def occIndex_def .
  then obtain q where q: "r = Inr q" by (cases r) simp_all
  obtain st1 syms where q': "q = (st1, syms)" by (cases q)
  from d' q q' have st': "st' = st1\<lparr>documents := AList.update (doc_RelativePath doc)
                      \<lparr>rd_RelativePath = doc_RelativePath doc, rd_Symbols = syms\<rparr> (documents st1)\<rparr>"
    by simp
  have f: "foldE (symbolStep sc h projectRoot doc occIndex) (doc_Symbols doc) (st, []) = Inr (st1, syms)"
    using q q' r_def by simp
  have e: "\<forall>(k, a)\<in>set []. map_of (symbolIndex st) k = Some a" by simp
  from symbols_allIndexed [OF f ai e dist disj]
  have r: "allIndexed st1" "\<forall>(k, a)\<in>set syms. map_of (symbolIndex st1) k = Some a"
    "fst ` set (symbolIndex st1) =
       fst ` set (symbolIndex st) \<union>
       set (filter (\<lambda>k. \<not> IsLocalSymbol sc k) (map si_Symbol (doc_Symbols doc)))"
    by blast+
  have sub: "set (documents st') \<subseteq>
      insert (doc_RelativePath doc, \<lparr>rd_RelativePath = doc_RelativePath doc, rd_Symbols = syms\<rparr>)
        (set (documents st1))"
    unfolding st' by (simp add: set_update_subset)
  have idx: "symbolIndex st' = symbolIndex st1" by (simp add: st')
  have "allIndexed st'"
    unfolding allIndexed_def
  proof (clarify)
    fix p rd k a
    assume prd: "(p, rd) \<in> set (documents st')" and ka: "(k, a) \<in> set (rd_Symbols rd)"
    from prd sub have "(p, rd) = (doc_RelativePath doc, \<lparr>rd_RelativePath = doc_RelativePath doc, rd_Symbols = syms\<rparr>)
        \<or> (p, rd) \<in> set (documents st1)" by blast
    then have "map_of (symbolIndex st1) k = Some a"
    proof
      assume "(p, rd) = (doc_RelativePath doc, \<lparr>rd_RelativePath = doc_RelativePath doc, rd_Symbols = syms\<rparr>)"
      with ka have "(k, a) \<in> set syms" by simp
      with r(2) show ?thesis by blast
    next
      assume "(p, rd) \<in> set (documents st1)"
      with r(1) ka show ?thesis unfolding allIndexed_def by blast
    qed
    then show "map_of (symbolIndex st') k = Some a" by (simp add: idx)
  qed
  with r(3) idx show ?thesis by simp
qed

lemma documents_allIndexed:
  assumes "foldE (documentStep sc h projectRoot) ds st = Inr st'"
    and "allIndexed st"
    and "distinct (declaredIds sc ds)"
    and "fst ` set (symbolIndex st) \<inter> set (declaredIds sc ds) = {}"
  shows "allIndexed st'"
  using assms
proof (induction ds arbitrary: st)
  case Nil
  then show ?case by simp
next
  case (Cons d ds)
  let ?ids = "filter (\<lambda>k. \<not> IsLocalSymbol sc k) (map si_Symbol (doc_Symbols d))"
  have dec: "declaredIds sc (d # ds) = ?ids @ declaredIds sc ds"
    by (simp add: declaredIds_def)
  from Cons.prems(1) obtain st1 where s1: "documentStep sc h projectRoot d st = Inr st1"
    and f: "foldE (documentStep sc h projectRoot) ds st1 = Inr st'"
    by (auto split: sum.splits)
  from Cons.prems(3) have d1: "distinct ?ids" and d2: "distinct (declaredIds sc ds)"
    and d3: "set ?ids \<inter> set (declaredIds sc ds) = {}"
    unfolding dec by simp_all
  from Cons.prems(4) have j1: "fst ` set (symbolIndex st) \<inter> set ?ids = {}"
    and j2: "fst ` set (symbolIndex st) \<inter> set (declaredIds sc ds) = {}"
    unfolding dec by auto
  from documentStep_allIndexed [OF s1 Cons.prems(2) d1 j1]
  have a1: "allIndexed st1" and dom1: "fst ` set (symbolIndex st1) = fst ` set (symbolIndex st) \<union> set ?ids"
    by blast+
  have "fst ` set (symbolIndex st1) \<inter> set (declaredIds sc ds) = {}"
    unfolding dom1 using j2 d3 by blast
  with Cons.IH [OF f a1 d2] show ?case by simp
qed

lemma finalState_allIndexed:
  assumes fs: "finalState sc h projectRoot docs = Inr st" and dist: "distinct (declaredIds sc docs)"
  shows "allIndexed st"
proof -
  from fs obtain st0 where p: "symbolPass sc h projectRoot docs = Inr st0"
    and st: "st = st0\<lparr>heap := crossReference sc (symbolIndex st0) docs (heap st0)\<rparr>"
    by (rule finalState_split)
  have "allIndexed st0"
    by (rule documents_allIndexed [OF p [unfolded symbolPass_def] _ dist])
       (simp_all add: allIndexed_def)
  then show ?thesis by (simp add: st allIndexed_def)
qed

lemma entry_indexed:
  assumes fs: "finalState sc h projectRoot docs = Inr st" and ai: "allIndexed st"
    and s: "s \<in> set (entries (resolve repoID lang st))"
  shows "indexedSymbol st (Symbol s) = Some s"
proof -
  from s obtain p d k where d: "(p, d) \<in> set (Documents (resolve repoID lang st))"
    and e: "(k, s) \<in> set (Symbols d)"
    by (auto simp: entries_def)
  from d obtain rd where rd: "(p, rd) \<in> set (documents st)" and dd: "d = resolveDocument (heap st) rd"
    by (auto simp: resolve_def)
  from e dd obtain a where a: "(k, a) \<in> set (rd_Symbols rd)" and sa: "s = heap st ! a"
    by (auto simp: resolveDocument_def)
  from ai rd a have m: "map_of (symbolIndex st) k = Some a" unfolding allIndexed_def by blast
  from finalState_refsOK [OF fs rd] a have "Symbol (heap st ! a) = k"
    unfolding refsOK_def by blast
  with m sa show ?thesis by (simp add: indexedSymbol_def)
qed

section \<open>The edges of the table\<close>

lemma cell_lists:
  assumes fs: "finalState sc h projectRoot docs = Inr st" and c: "c < length (heap st)"
    and x: "x \<in> set (DependenceOn (heap st ! c)) \<union> set (ReferenceBy (heap st ! c))"
  shows "\<not> IsLocalSymbol sc x \<and> x \<noteq> Symbol (heap st ! c)"
proof -
  have ok: "idxOK sc (symbolIndex st) (heap st)" using fs by (rule finalState_idxOK)
  from x show ?thesis
  proof
    assume "x \<in> set (DependenceOn (heap st ! c))"
    then obtain doc occ other where "scopePair sc doc occ other"
      "map_of (symbolIndex st) (occ_Symbol occ) = Some c" "occ_Symbol other = x" "\<not> IsLocalSymbol sc x"
      unfolding finalState_cell(1) [OF fs c] by blast
    moreover from this ok have "Symbol (heap st ! c) = occ_Symbol occ"
      unfolding idxOK_def by blast
    ultimately show ?thesis by (auto simp: scopePair_def inScope_def)
  next
    assume "x \<in> set (ReferenceBy (heap st ! c))"
    then obtain doc occ other where "scopePair sc doc occ other"
      "map_of (symbolIndex st) (occ_Symbol other) = Some c" "occ_Symbol occ = x"
      unfolding finalState_cell(2) [OF fs c] by blast
    moreover from this ok have "Symbol (heap st ! c) = occ_Symbol other"
      unfolding idxOK_def by blast
    ultimately show ?thesis by (auto simp: scopePair_def inScope_def)
  qed
qed

lemma cell_indexed_or_empty:
  assumes fs: "finalState sc h projectRoot docs = Inr st" and c: "c < length (heap st)"
  shows "indexedSymbol st (Symbol (heap st ! c)) = Some (heap st ! c) \<or>
         (DependenceOn (heap st ! c) = [] \<and> ReferenceBy (heap st ! c) = [])"
proof (cases "\<exists>k. map_of (symbolIndex st) k = Some c")
  case True
  then obtain k where k: "map_of (symbolIndex st) k = Some c" by blast
  with finalState_idxOK [OF fs] have "Symbol (heap st ! c) = k" unfolding idxOK_def by blast
  with k show ?thesis by (simp add: indexedSymbol_def)
next
  case False
  then have "set (DependenceOn (heap st ! c)) = {}" "set (ReferenceBy (heap st ! c)) = {}"
    unfolding finalState_cell [OF fs c] by blast+
  then show ?thesis by simp
qed

lemma entries_in_store:
  assumes fs: "finalState sc h projectRoot docs = Inr st"
    and s: "s \<in> set (entries (resolve repoID lang st))"
  obtains a where "a < length (heap st)" and "s = heap st ! a"
proof -
  from s obtain p d k where "(p, d) \<in> set (Documents (resolve repoID lang st))"
    "(k, s) \<in> set (Symbols d)"
    by (auto simp: entries_def)
  then show thesis using entry_in_store [OF fs] that by blast
qed

lemma buildRST_resolve:
  assumes b: "buildRST sc h docs repoID projectRoot = Inr rst"
    and fs: "finalState sc h projectRoot docs = Inr st"
  obtains lang where "rst = resolve repoID lang st"
proof (rule buildRST_split [OF b])
  fix st' d0 ds
  assume "finalState sc h projectRoot docs = Inr st'" "rst = resolve repoID (doc_Language d0) st'"
  with fs that show thesis by simp
qed

lemma ex_buildF: "buildRST exampleScip exampleHost [docF] ''repo'' '''' = Inr tableF"
  by code_simp

lemma ex_buildFG: "buildRST exampleScip exampleHost [docFG] ''repo'' '''' = Inr tableFG"
  by code_simp

lemma ex_buildGFG: "buildRST exampleScip exampleHost [docG, docFG] ''repo'' '''' = Inr tableGFG"
  by code_simp

lemma ex_finalFG: "finalState exampleScip exampleHost '''' [docFG] = Inr stateFG"
  by code_simp

lemma ex_entriesFG: "entries tableFG = [symF, symG]"
  by (simp add: entries_def tableFG_def)

lemma ex_indexedFG:
  "indexedSymbol stateFG ''pkg F().'' = Some symF" "indexedSymbol stateFG ''pkg G().'' = Some symG"
  by (simp_all add: indexedSymbol_def stateFG_def)

text \<open>
  Claim C1, as amended. In a table that the builder returns, take two symbol entries
  \<open>A\<close> and \<open>B\<close> that are the symbols the index of the first pass holds for their ids.
  Then the id of \<open>A\<close> is in the dependence list of \<open>B\<close> exactly when the id of \<open>B\<close>
  is in the reference list of \<open>A\<close>. Every entry is such a symbol when no id that is
  not local is declared twice in the documents of the build.
\<close>

theorem edges_symmetric_indexed:
  assumes "buildRST sc h docs repoID projectRoot = Inr rst"
    and "finalState sc h projectRoot docs = Inr st"
    and "A \<in> set (entries rst)" and "B \<in> set (entries rst)"
  shows "(indexedSymbol st (Symbol A) = Some A \<and> indexedSymbol st (Symbol B) = Some B \<longrightarrow>
           (Symbol A \<in> set (DependenceOn B) \<longleftrightarrow> Symbol B \<in> set (ReferenceBy A))) \<and>
         (distinct (declaredIds sc docs) \<longrightarrow>
           indexedSymbol st (Symbol A) = Some A \<and> indexedSymbol st (Symbol B) = Some B)"
proof (intro conjI impI)
  assume i: "indexedSymbol st (Symbol A) = Some A \<and> indexedSymbol st (Symbol B) = Some B"
  then have ia: "indexedSymbol st (Symbol A) = Some A" and ib: "indexedSymbol st (Symbol B) = Some B"
    by simp_all
  note fs = assms(2)
  have nl: "\<not> IsLocalSymbol sc (Symbol A)" using indexed_lists(2) [OF fs ia] .
  have "Symbol A \<in> set (DependenceOn B) \<longleftrightarrow> Symbol A \<in> usedInScopeOf sc docs (Symbol B)"
    by (simp only: indexed_lists(3) [OF fs ib])
  also have "\<dots> \<longleftrightarrow> Symbol B \<in> scopesAround sc docs (Symbol A)"
    using nl unfolding usedInScopeOf_def scopesAround_def by blast
  also have "\<dots> \<longleftrightarrow> Symbol B \<in> set (ReferenceBy A)"
    by (simp only: indexed_lists(4) [OF fs ia])
  finally show "Symbol A \<in> set (DependenceOn B) \<longleftrightarrow> Symbol B \<in> set (ReferenceBy A)" .
next
  assume d: "distinct (declaredIds sc docs)"
  note fs = assms(2)
  from assms(1) fs obtain lang where r: "rst = resolve repoID lang st" by (rule buildRST_resolve)
  have ai: "allIndexed st" using fs d by (rule finalState_allIndexed)
  show "indexedSymbol st (Symbol A) = Some A"
    using entry_indexed [OF fs ai] assms(3) unfolding r by blast
  show "indexedSymbol st (Symbol B) = Some B"
    using entry_indexed [OF fs ai] assms(4) unfolding r by blast
qed

theorem edges_symmetric_indexed_witness:
  "buildRST exampleScip exampleHost [docFG] ''repo'' '''' = Inr tableFG \<and>
   symG \<in> set (entries tableFG) \<and> symF \<in> set (entries tableFG) \<and>
   indexedSymbol stateFG (Symbol symG) = Some symG \<and>
   indexedSymbol stateFG (Symbol symF) = Some symF \<and>
   (Symbol symG \<in> set (DependenceOn symF)) = (Symbol symF \<in> set (ReferenceBy symG)) \<and>
   Symbol symG \<in> set (DependenceOn symF)"
proof -
  have a: "symG \<in> set (entries tableFG)" "symF \<in> set (entries tableFG)"
    by (simp_all add: ex_entriesFG)
  have d: "distinct (declaredIds exampleScip [docFG])"
    by (simp add: declaredIds_def docFG_def declF_def declG_def exampleScip_def HasPrefix_def)
  from edges_symmetric_indexed [OF ex_buildFG ex_finalFG a] d
  have "indexedSymbol stateFG (Symbol symG) = Some symG \<and>
        indexedSymbol stateFG (Symbol symF) = Some symF \<and>
        (Symbol symG \<in> set (DependenceOn symF)) = (Symbol symF \<in> set (ReferenceBy symG))"
    by blast
  moreover have "Symbol symG \<in> set (DependenceOn symF)" by (simp add: symG_def symF_def)
  ultimately show ?thesis using ex_buildFG a by blast
qed

theorem edges_symmetric_counterexample:
  "buildRST exampleScip exampleHost [docG, docFG] ''repo'' '''' = Inr tableGFG \<and>
   symG0 \<in> set (entries tableGFG) \<and> symF \<in> set (entries tableGFG) \<and>
   Symbol symG0 \<in> set (DependenceOn symF) \<and> Symbol symF \<notin> set (ReferenceBy symG0) \<and>
   \<not> edgesSymmetric tableGFG"
proof -
  have e: "entries tableGFG = [symG0, symF, symG]" by (simp add: entries_def tableGFG_def)
  have 1: "Symbol symG0 \<in> set (DependenceOn symF)" by (simp add: symG0_def symF_def)
  have 2: "Symbol symF \<notin> set (ReferenceBy symG0)" by (simp add: symG0_def symF_def)
  have "\<not> edgesSymmetric tableGFG"
    unfolding edgesSymmetric_def e using 1 2 by (meson list.set_intros)
  with ex_buildGFG e 1 2 show ?thesis by simp
qed

text \<open>
  Claim C2, as amended. For a scope occurrence of the symbol \<open>S\<close> and an occurrence of
  another symbol \<open>O\<close> inside the scope, the id of \<open>O\<close> goes into the dependence list of
  \<open>S\<close> when \<open>S\<close> is in the index of the first pass and \<open>O\<close> is not local, whether or
  not \<open>O\<close> is in the index; the id of \<open>S\<close> goes into the reference list of \<open>O\<close> when
  \<open>O\<close> is in the index, whether or not \<open>S\<close> is. So when the build ends the dependence
  list of an indexed symbol holds exactly the ids, not local, used inside its scopes, and
  its reference list exactly the ids of the scopes around its occurrences; an entry that
  the index does not hold has no edges; and every id in a list of an entry is not local
  and is not the id of the entry. A listed id need not be the id of an entry.
\<close>

theorem cross_reference_lists:
  assumes "buildRST sc h docs repoID projectRoot = Inr rst"
    and "finalState sc h projectRoot docs = Inr st"
  shows "(indexedSymbol st k = Some S \<longrightarrow>
            set (DependenceOn S) = usedInScopeOf sc docs k \<and>
            set (ReferenceBy S) = scopesAround sc docs k) \<and>
         (\<forall>s\<in>set (entries rst).
            (indexedSymbol st (Symbol s) = Some s \<or> DependenceOn s = [] \<and> ReferenceBy s = []) \<and>
            (\<forall>x\<in>set (DependenceOn s) \<union> set (ReferenceBy s).
               \<not> IsLocalSymbol sc x \<and> x \<noteq> Symbol s))"
proof (intro conjI impI ballI)
  note fs = assms(2)
  from assms(1) fs obtain lang where r: "rst = resolve repoID lang st" by (rule buildRST_resolve)
  {
    assume i: "indexedSymbol st k = Some S"
    show "set (DependenceOn S) = usedInScopeOf sc docs k" using fs i by (rule indexed_lists(3))
    show "set (ReferenceBy S) = scopesAround sc docs k" using fs i by (rule indexed_lists(4))
  }
  fix s assume "s \<in> set (entries rst)"
  then obtain a where a: "a < length (heap st)" "s = heap st ! a"
    unfolding r by (rule entries_in_store [OF fs])
  show "indexedSymbol st (Symbol s) = Some s \<or> DependenceOn s = [] \<and> ReferenceBy s = []"
    unfolding a(2) using fs a(1) by (rule cell_indexed_or_empty)
  fix x assume "x \<in> set (DependenceOn s) \<union> set (ReferenceBy s)"
  then have "\<not> IsLocalSymbol sc x \<and> x \<noteq> Symbol s"
    unfolding a(2) by (rule cell_lists [OF fs a(1)])
  then show "\<not> IsLocalSymbol sc x" and "x \<noteq> Symbol s" by simp_all
qed

theorem cross_reference_lists_witness:
  "buildRST exampleScip exampleHost [docFG] ''repo'' '''' = Inr tableFG \<and>
   usedInScopeOf exampleScip [docFG] ''pkg F().'' = {''pkg G().''} \<and>
   scopesAround exampleScip [docFG] ''pkg F().'' = {} \<and>
   scopesAround exampleScip [docFG] ''pkg G().'' = {''pkg F().''} \<and>
   \<not> IsLocalSymbol exampleScip ''pkg G().''"
proof -
  note t = cross_reference_lists [OF ex_buildFG ex_finalFG]
  from t [of "''pkg F().''" symF] ex_indexedFG(1)
  have f: "set (DependenceOn symF) = usedInScopeOf exampleScip [docFG] ''pkg F().''"
    "set (ReferenceBy symF) = scopesAround exampleScip [docFG] ''pkg F().''"
    by blast+
  from t [of "''pkg G().''" symG] ex_indexedFG(2)
  have g: "set (ReferenceBy symG) = scopesAround exampleScip [docFG] ''pkg G().''"
    by blast
  have "symF \<in> set (entries tableFG)" by (simp add: ex_entriesFG)
  with t [of "''pkg F().''" symF]
  have "\<forall>x\<in>set (DependenceOn symF) \<union> set (ReferenceBy symF).
          \<not> IsLocalSymbol exampleScip x \<and> x \<noteq> Symbol symF"
    by blast
  then have n: "\<not> IsLocalSymbol exampleScip ''pkg G().''" by (simp add: symF_def)
  from f g n ex_buildFG show ?thesis
    by (simp add: symF_def symG_def)
qed

theorem listed_ids_are_entries_counterexample:
  "buildRST exampleScip exampleHost [docF] ''repo'' '''' = Inr tableF \<and>
   entries tableF = [symF] \<and> DependenceOn symF = [''pkg G().''] \<and>
   Symbol symF = ''pkg F().'' \<and> \<not> listsClosed tableF"
proof -
  have e: "entries tableF = [symF]" by (simp add: entries_def tableF_def)
  have "\<not> listsClosed tableF" unfolding listsClosed_def e by (simp add: symF_def)
  with ex_buildF e show ?thesis by (simp add: symF_def)
qed

section \<open>The occurrence index and the kind of a symbol\<close>

lemma and_exp_cases: "(r :: 'a::len word) AND 2 ^ i = (if bit r i then 2 ^ i else 0)"
  by (rule bit_word_eqI) (auto simp: bit_simps)

lemma uint_exp32: "i < 31 \<Longrightarrow> uint ((2::32 word) ^ i) = 2 ^ i"
  by (rule uint_2p) (simp add: word_gt_0 exp_eq_zero_iff)

lemma sint_exp32:
  assumes i: "i < 31"
  shows "sint ((2::32 word) ^ i) = 2 ^ i"
proof -
  have "(2::int) ^ i < 2 ^ 31" by (rule power_strict_increasing) (use i in simp_all)
  moreover have "- (2 ^ 31) \<le> (2::int) ^ i"
  proof -
    have "(0::int) \<le> 2 ^ i" by simp
    moreover have "- (2 ^ 31) \<le> (0::int)" by simp
    ultimately show ?thesis by (rule order_trans [rotated])
  qed
  ultimately have "signed_take_bit 31 ((2::int) ^ i) = 2 ^ i"
    by (rule signed_take_bit_int_eq_self [rotated])
  then show ?thesis using i by (simp add: sint_uint uint_exp32)
qed

lemma role_bit_test:
  "i < 31 \<Longrightarrow> word_sless 0 ((r :: 32 word) AND 2 ^ i) \<longleftrightarrow> bit r i"
  by (simp add: and_exp_cases word_sless_alt sint_exp32)

lemma inferKind_bits:
  assumes "SymbolRole_Definition sc = 2 ^ i" "i < 31"
    and "SymbolRole_ForwardDefinition sc = 2 ^ j" "j < 31"
  shows "inferKindFromRoles sc roles = (if bit roles i \<or> bit roles j then ''FUNC'' else '''')"
  using assms by (simp add: inferKindFromRoles_def role_bit_test)

lemma map_of_occIndex_fold:
  "map_of (fold (recordOccurrence sc) occs acc) k =
     (case map_of acc k of
        Some v \<Rightarrow> Some v
      | None \<Rightarrow> map_option (occInfoOf sc) (firstRanged occs k))"
proof (induction occs arbitrary: acc)
  case Nil
  then show ?case by (simp add: firstRanged_def split: option.splits)
next
  case (Cons occ occs)
  show ?case
  proof (cases "0 < length (occ_Range occ) \<and> occ_Symbol occ \<noteq> '''' \<and>
                map_of acc (occ_Symbol occ) = None")
    case True
    then have r: "recordOccurrence sc occ acc = AList.update (occ_Symbol occ) (occInfoOf sc occ) acc"
      by (simp add: recordOccurrence_def occInfoOf_def Let_def)
    show ?thesis
      using True by (simp add: Cons.IH r update_conv' firstRanged_def split: option.splits)
  next
    case False
    then have r: "recordOccurrence sc occ acc = acc"
      by (auto simp: recordOccurrence_def)
    show ?thesis
      using False by (auto simp: Cons.IH r firstRanged_def split: option.splits)
  qed
qed

lemma map_of_buildOccIndex:
  "map_of (buildOccIndex sc occs) k = map_option (occInfoOf sc) (firstRanged occs k)"
  by (simp add: buildOccIndex_def map_of_occIndex_fold)

lemma attachOccurrence_line_kind:
  "Line (attachOccurrence occIndex s) =
     (case map_of occIndex (Symbol s) of None \<Rightarrow> Line s | Some info \<Rightarrow> info_line info)"
  "Kind (attachOccurrence occIndex s) =
     (case map_of occIndex (Symbol s) of
        None \<Rightarrow> Kind s
      | Some info \<Rightarrow> if Kind s = ''UnspecifiedKind'' \<or> Kind s = '''' then info_kind info else Kind s)"
  by (simp_all add: attachOccurrence_def Let_def split: option.splits)

lemma newSymbol_line_kind:
  assumes "newSymbol sc h projectRoot doc (buildOccIndex sc (doc_Occurrences doc)) sinfo = Inr s"
  shows "(case firstRanged (doc_Occurrences doc) (si_Symbol sinfo) of
            None \<Rightarrow> Line s = 0 \<and> Kind s = Kind_String sc (si_Kind sinfo)
          | Some occ \<Rightarrow>
              Line s = occ_Range occ ! 0 + 1 \<and>
              Kind s = (if Kind_String sc (si_Kind sinfo) = ''UnspecifiedKind'' \<or>
                           Kind_String sc (si_Kind sinfo) = ''''
                        then inferKindFromRoles sc (occ_SymbolRoles occ)
                        else Kind_String sc (si_Kind sinfo)))"
proof -
  from assms obtain sg where sg: "buildSignature sinfo = Inr sg"
    and a: "attachCode h projectRoot doc
              (attachOccurrence (buildOccIndex sc (doc_Occurrences doc))
                 \<lparr>Symbol = si_Symbol sinfo, Kind = Kind_String sc (si_Kind sinfo),
                  Signature = sg, Line = 0, Code = '''',
                  DependenceOn = [], ReferenceBy = []\<rparr>) = Inr s"
    by (auto simp: newSymbol_def split: sum.splits)
  from attachCode_fields [OF a] show ?thesis
    by (simp add: attachOccurrence_line_kind map_of_buildOccIndex occInfoOf_def
        split: option.splits)
qed

lemma bit_65_0: "bit (65 :: 32 word) 0" by (simp add: bit_0)
lemma bit_2_0: "\<not> bit (2 :: 32 word) 0" by (simp add: bit_0)
lemma bit_2_6: "\<not> bit (2 :: 32 word) 6" by (simp add: bit_iff_odd_drop_bit drop_bit_eq_div)

lemma ex_first:
  "map_of (buildOccIndex exampleScip [occNoRange, occF]) ''pkg F().'' =
     Some \<lparr>info_line = 10, info_kind = ''FUNC''\<rparr>"
  by code_simp

text \<open>
  Claim C6, as amended. The occurrence index of a document maps an id that is not empty
  to the line (the first row of the range plus one) and the inferred kind of the first
  occurrence of that id that has a range, in the order of the occurrence list, and maps
  no other id; an occurrence without a range is passed over, later occurrences of the id
  are ignored and no role is looked at to choose. With the two role masks single bits
  below the sign bit, the inferred kind is \<open>FUNC\<close> exactly when one of the two bits is
  set, and empty otherwise. A declared symbol takes the line of its entry, and the
  inferred kind only when the name of its declared kind is \<open>UnspecifiedKind\<close> or empty.
\<close>

theorem occurrence_index_first_ranged:
  "map_of (buildOccIndex sc occs) k = map_option (occInfoOf sc) (firstRanged occs k) \<and>
   (SymbolRole_Definition sc = 2 ^ i \<and> i < 31 \<and>
    SymbolRole_ForwardDefinition sc = 2 ^ j \<and> j < 31 \<longrightarrow>
      inferKindFromRoles sc roles = (if bit roles i \<or> bit roles j then ''FUNC'' else '''')) \<and>
   (newSymbol sc h projectRoot doc (buildOccIndex sc (doc_Occurrences doc)) sinfo = Inr s \<longrightarrow>
      (case firstRanged (doc_Occurrences doc) (si_Symbol sinfo) of
         None \<Rightarrow> Line s = 0 \<and> Kind s = Kind_String sc (si_Kind sinfo)
       | Some occ \<Rightarrow>
           Line s = occ_Range occ ! 0 + 1 \<and>
           Kind s = (if Kind_String sc (si_Kind sinfo) = ''UnspecifiedKind'' \<or>
                        Kind_String sc (si_Kind sinfo) = ''''
                     then inferKindFromRoles sc (occ_SymbolRoles occ)
                     else Kind_String sc (si_Kind sinfo))))"
  using map_of_buildOccIndex inferKind_bits newSymbol_line_kind by blast

theorem occurrence_index_first_ranged_witness:
  "map_of (buildOccIndex exampleScip [occF, occG, occF]) ''pkg G().'' =
     Some \<lparr>info_line = 15, info_kind = ''''\<rparr> \<and>
   inferKindFromRoles exampleScip 65 = ''FUNC'' \<and>
   inferKindFromRoles exampleScip 2 = '''' \<and>
   (\<exists>s. newSymbol exampleScip exampleHost '''' docFG (buildOccIndex exampleScip (doc_Occurrences docFG))
          (declF\<lparr>si_Kind := SymbolInformation_UnspecifiedKind\<rparr>) = Inr s \<and>
        Line s = 10 \<and> Kind s = ''FUNC'')"
proof -
  let ?u = "declF\<lparr>si_Kind := SymbolInformation_UnspecifiedKind\<rparr>"
  let ?s = "\<lparr>Symbol = ''pkg F().'', Kind = ''FUNC'', Signature = ''F'', Line = 10,
            Code = '''', DependenceOn = [], ReferenceBy = []\<rparr>"
  have n: "newSymbol exampleScip exampleHost '''' docFG
             (buildOccIndex exampleScip (doc_Occurrences docFG)) ?u = Inr ?s"
    by code_simp
  have m: "SymbolRole_Definition exampleScip = 2 ^ 0 \<and> (0::nat) < 31 \<and>
           SymbolRole_ForwardDefinition exampleScip = 2 ^ 6 \<and> (6::nat) < 31"
    by (simp add: exampleScip_def)
  have fr: "firstRanged [occF, occG, occF] ''pkg G().'' = Some occG"
    by (simp add: firstRanged_def occF_def occG_def)
  have k0: "occInfoOf exampleScip occG = \<lparr>info_line = 15, info_kind = ''''\<rparr>"
    by code_simp
  note t1 = occurrence_index_first_ranged [THEN conjunct1]
  note t2 = occurrence_index_first_ranged [THEN conjunct2, THEN conjunct1, rule_format]
  note t3 = occurrence_index_first_ranged [THEN conjunct2, THEN conjunct2, rule_format]
  have 1: "map_of (buildOccIndex exampleScip [occF, occG, occF]) ''pkg G().'' =
             Some \<lparr>info_line = 15, info_kind = ''''\<rparr>"
    unfolding t1 fr using k0 by simp
  have 2: "inferKindFromRoles exampleScip 65 = ''FUNC''"
    unfolding t2 [OF m] using bit_65_0 by simp
  have 3: "inferKindFromRoles exampleScip 2 = ''''"
    unfolding t2 [OF m] using bit_2_0 bit_2_6 by simp
  have "case firstRanged (doc_Occurrences docFG) (si_Symbol ?u) of
         None \<Rightarrow> Line ?s = 0 \<and> Kind ?s = Kind_String exampleScip (si_Kind ?u)
       | Some occ \<Rightarrow>
           Line ?s = occ_Range occ ! 0 + 1 \<and>
           Kind ?s = (if Kind_String exampleScip (si_Kind ?u) = ''UnspecifiedKind'' \<or>
                        Kind_String exampleScip (si_Kind ?u) = ''''
                     then inferKindFromRoles exampleScip (occ_SymbolRoles occ)
                     else Kind_String exampleScip (si_Kind ?u))"
    using n by (rule t3)
  then have 4: "Line ?s = 10 \<and> Kind ?s = ''FUNC''" by simp
  from 1 2 3 4 n show ?thesis by blast
qed

theorem first_occurrence_counterexample:
  "find (\<lambda>occ. occ_Symbol occ = ''pkg F().'') [occNoRange, occF] = Some occNoRange \<and>
   occ_Range occNoRange = [] \<and>
   inferKindFromRoles exampleScip (occ_SymbolRoles occNoRange) = '''' \<and>
   map_of (buildOccIndex exampleScip [occNoRange, occF]) ''pkg F().'' =
     Some \<lparr>info_line = 10, info_kind = ''FUNC''\<rparr> \<and>
   occ_Range occF ! 0 + 1 = 10 \<and>
   inferKindFromRoles exampleScip (occ_SymbolRoles occF) = ''FUNC''"
proof -
  have "inferKindFromRoles exampleScip (occ_SymbolRoles occNoRange) = ''''" by code_simp
  moreover have "inferKindFromRoles exampleScip (occ_SymbolRoles occF) = ''FUNC''" by code_simp
  ultimately show ?thesis
    using ex_first by (simp add: occNoRange_def occF_def)
qed

section \<open>The partitions and the panic of the empty slice\<close>

lemma slice_panic: "slice s lo hi = Inl e \<Longrightarrow> e = SliceBoundsOutOfRange"
  by (simp add: slice_def split: if_splits)

lemma firstCodeBlock_panic: "firstCodeBlock ds = Some (Inl e) \<Longrightarrow> e = SliceBoundsOutOfRange"
  by (induction ds) (auto split: if_splits dest: slice_panic)

lemma buildSignature_panic: "buildSignature sinfo = Inl e \<Longrightarrow> e = SliceBoundsOutOfRange"
  by (auto simp: buildSignature_def Let_def split: if_splits option.splits dest: firstCodeBlock_panic)

lemma treeSitterExtractCode_panic:
  "treeSitterExtractCode h f line lang = Inl e \<Longrightarrow> e = SliceBoundsOutOfRange"
  by (auto simp: treeSitterExtractCode_def Let_def split: option.splits dest: slice_panic)

lemma attachCode_panic: "attachCode h projectRoot doc s = Inl e \<Longrightarrow> e = SliceBoundsOutOfRange"
  by (auto simp: attachCode_def Let_def split: if_splits sum.splits dest: treeSitterExtractCode_panic)

lemma newSymbol_panic:
  "newSymbol sc h projectRoot doc oi sinfo = Inl e \<Longrightarrow> e = SliceBoundsOutOfRange"
  by (auto simp: newSymbol_def split: sum.splits dest: buildSignature_panic attachCode_panic)

lemma symbolStep_panic:
  "symbolStep sc h projectRoot doc oi sinfo s = Inl e \<Longrightarrow> e = SliceBoundsOutOfRange"
  by (auto simp: symbolStep_def Let_def split: if_splits sum.splits dest: newSymbol_panic)

lemma documentStep_panic:
  assumes "documentStep sc h projectRoot doc st = Inl e"
  shows "e = SliceBoundsOutOfRange"
proof -
  from assms have "foldE (symbolStep sc h projectRoot doc (buildOccIndex sc (doc_Occurrences doc)))
      (doc_Symbols doc) (st, []) = Inl e"
    by (auto simp: documentStep_def Let_def split: sum.splits)
  then obtain x s' where "symbolStep sc h projectRoot doc (buildOccIndex sc (doc_Occurrences doc)) x s' = Inl e"
    using foldE_error by fastforce
  then show ?thesis by (rule symbolStep_panic)
qed

lemma finalState_panic:
  assumes "finalState sc h projectRoot docs = Inl e"
  shows "e = SliceBoundsOutOfRange"
proof -
  from assms have "symbolPass sc h projectRoot docs = Inl e"
    by (auto simp: finalState_def split: sum.splits)
  then obtain x s' where "documentStep sc h projectRoot x s' = Inl e"
    unfolding symbolPass_def using foldE_error by fastforce
  then show ?thesis by (rule documentStep_panic)
qed

lemma buildRST_index_panic:
  "buildRST sc h ds repoID projectRoot = Inl IndexOutOfRange \<longleftrightarrow> ds = []"
proof
  assume a: "buildRST sc h ds repoID projectRoot = Inl IndexOutOfRange"
  show "ds = []"
  proof (rule ccontr)
    assume "ds \<noteq> []"
    then obtain d0 rest where "ds = d0 # rest" by (cases ds) simp_all
    with a have "finalState sc h projectRoot ds = Inl IndexOutOfRange"
      by (auto simp: buildRST_def split: sum.splits)
    then have "IndexOutOfRange = SliceBoundsOutOfRange" by (rule finalState_panic)
    then show False by simp
  qed
next
  assume "ds = []"
  then show "buildRST sc h ds repoID projectRoot = Inl IndexOutOfRange"
    by (simp add: buildRST_def)
qed

lemma fold_inv:
  assumes "\<And>x s. x \<in> set xs \<Longrightarrow> I s \<Longrightarrow> I (f x s)" and "I s"
  shows "I (fold f xs s)"
  using assms by (induction xs arbitrary: s) simp_all

lemma groupByLanguage_nonempty:
  "\<forall>(lang, ds)\<in>set (groupByLanguage docs). ds \<noteq> []"
  unfolding groupByLanguage_def
proof (rule fold_inv [where I = "\<lambda>langDocs. \<forall>(lang, ds)\<in>set langDocs. ds \<noteq> []"])
  fix doc :: Document and langDocs :: "(string \<times> Document list) list"
  assume inv: "\<forall>(lang, ds)\<in>set langDocs. ds \<noteq> []"
  define lang where "lang = (if doc_Language doc = '''' then ''unknown'' else doc_Language doc)"
  define grp where "grp = (case map_of langDocs lang of None \<Rightarrow> [] | Some ds \<Rightarrow> ds) @ [doc]"
  have "set (AList.update lang grp langDocs) \<subseteq> insert (lang, grp) (set langDocs)"
    by (rule set_update_subset)
  moreover have "grp \<noteq> []" by (simp add: grp_def)
  ultimately have "\<forall>(l, ds)\<in>set (AList.update lang grp langDocs). ds \<noteq> []"
    using inv by blast
  then show "\<forall>(lang, ds)\<in>set
        (let lang = doc_Language doc; lang = if lang = '''' then ''unknown'' else lang
         in AList.update lang
              ((case map_of langDocs lang of None \<Rightarrow> [] | Some ds \<Rightarrow> ds) @ [doc]) langDocs).
       ds \<noteq> []"
    by (simp add: Let_def lang_def grp_def)
next
  show "\<forall>(lang, ds)\<in>set []. ds \<noteq> []" by simp
qed

lemma parseMain_no_index_panic:
  "parseMain sc h docs outputDir repoID projectRoot \<noteq> Inl IndexOutOfRange"
proof
  assume "parseMain sc h docs outputDir repoID projectRoot = Inl IndexOutOfRange"
  then obtain g w where g: "g \<in> set (groupByLanguage docs)"
    and e: "(case g of (lang, ds) \<Rightarrow> \<lambda>written.
              case buildRST sc h ds repoID projectRoot of
                Inl p \<Rightarrow> Inl p
              | Inr rstTable \<Rightarrow>
                  Inr (written @ [(Join h outputDir (rstFilename repoID lang), rstTable)])) w
             = Inl IndexOutOfRange"
    unfolding parseMain_def using foldE_error by fastforce
  obtain lang ds where gd: "g = (lang, ds)" by (cases g)
  from e gd have "buildRST sc h ds repoID projectRoot = Inl IndexOutOfRange"
    by (simp split: sum.splits)
  then have "ds = []" by (simp only: buildRST_index_panic)
  moreover from g gd groupByLanguage_nonempty [of docs] have "ds \<noteq> []" by blast
  ultimately show False by simp
qed

text \<open>
  Claim C10. \<open>buildRST\<close> panics with an index out of range exactly when its slice of
  documents is empty: that is the read of \<open>docs[0].Language\<close>. The grouping of
  \<open>parseMain\<close> makes no empty group, since a group comes into being by appending a
  document to it; so no call of \<open>buildRST\<close> from \<open>parseMain\<close> gets an empty slice,
  and \<open>parseMain\<close> never ends in that panic.
\<close>

theorem buildRST_nonempty_at_call_site:
  "(buildRST sc h ds repoID projectRoot = Inl IndexOutOfRange \<longleftrightarrow> ds = []) \<and>
   (\<forall>(lang, group)\<in>set (groupByLanguage docs).
      group \<noteq> [] \<and> buildRST sc h group repoID projectRoot \<noteq> Inl IndexOutOfRange) \<and>
   parseMain sc h docs outputDir repoID projectRoot \<noteq> Inl IndexOutOfRange"
proof (intro conjI)
  show "buildRST sc h ds repoID projectRoot = Inl IndexOutOfRange \<longleftrightarrow> ds = []"
    by (rule buildRST_index_panic)
  show "\<forall>(lang, group)\<in>set (groupByLanguage docs).
      group \<noteq> [] \<and> buildRST sc h group repoID projectRoot \<noteq> Inl IndexOutOfRange"
    using groupByLanguage_nonempty [of docs] by (auto simp: buildRST_index_panic)
  show "parseMain sc h docs outputDir repoID projectRoot \<noteq> Inl IndexOutOfRange"
    by (rule parseMain_no_index_panic)
qed

theorem buildRST_nonempty_at_call_site_witness:
  "groupByLanguage [docF, docG\<lparr>doc_Language := ''''\<rparr>] =
     [(''go'', [docF]), (''unknown'', [docG\<lparr>doc_Language := ''''\<rparr>])] \<and>
   buildRST exampleScip exampleHost [docF] ''repo'' '''' \<noteq> Inl IndexOutOfRange \<and>
   buildRST exampleScip exampleHost [docG\<lparr>doc_Language := ''''\<rparr>] ''repo'' '''' \<noteq> Inl IndexOutOfRange \<and>
   buildRST exampleScip exampleHost [] ''repo'' '''' = Inl IndexOutOfRange"
proof -
  let ?docs = "[docF, docG\<lparr>doc_Language := ''''\<rparr>]"
  have g: "groupByLanguage ?docs = [(''go'', [docF]), (''unknown'', [docG\<lparr>doc_Language := ''''\<rparr>])]"
    by (simp add: groupByLanguage_def docF_def docG_def Let_def)
  note t = buildRST_nonempty_at_call_site
    [of exampleScip exampleHost "[]" "''repo''" "''''" ?docs "''out''"]
  from t have a: "\<forall>(lang, group)\<in>set (groupByLanguage ?docs).
      group \<noteq> [] \<and> buildRST exampleScip exampleHost group ''repo'' '''' \<noteq> Inl IndexOutOfRange"
    by blast
  from t have b: "buildRST exampleScip exampleHost [] ''repo'' '''' = Inl IndexOutOfRange"
    by blast
  from a have "buildRST exampleScip exampleHost [docF] ''repo'' '''' \<noteq> Inl IndexOutOfRange"
    "buildRST exampleScip exampleHost [docG\<lparr>doc_Language := ''''\<rparr>] ''repo'' '''' \<noteq> Inl IndexOutOfRange"
    unfolding g by simp_all
  with g b show ?thesis by blast
qed
section \<open>The query operations\<close>

lemma find_SomeD: "find P xs = Some x \<Longrightarrow> x \<in> set xs \<and> P x"
  by (induction xs) (auto split: if_splits)

lemma find_cli_None:
  "find (\<lambda>(symKey, s). let baseName = extractSymbolName symKey
           in baseName = query \<or> HasSuffix baseName (''.'' @ query)) xs = None \<longleftrightarrow>
   (\<forall>key\<in>fst ` set xs. \<not> matchesExact query key \<and> \<not> matchesMember query key)"
  by (induction xs) (auto simp: matchesExact_def matchesMember_def Let_def)

lemma find_tui_None:
  "find (\<lambda>(symKey, s). let baseName = extractSymbolName symKey
           in (baseName = query \<or> baseName = query @ ''()'') \<and>
              (line = 0 \<or> sint (Line s) = line)) xs = None \<longleftrightarrow>
   (\<forall>(key, s)\<in>set xs.
      \<not> ((matchesExact query key \<or> matchesCall query key) \<and> (line = 0 \<or> sint (Line s) = line)))"
  by (induction xs) (auto simp: matchesExact_def matchesCall_def Let_def)

lemma getSymbolDetails_found:
  assumes "getSymbolDetails h rstFile filePath query = Inr d"
  shows "\<exists>data r doc key s.
           ReadFile h rstFile = Some data \<and> Unmarshal h data = Some r \<and>
           map_of (Documents r) filePath = Some doc \<and> (key, s) \<in> set (Symbols doc) \<and>
           (matchesExact query key \<or> matchesMember query key) \<and>
           d = \<lparr>details_Name = extractSymbolName key, details_Kind = Kind s,
                details_FilePath = filePath, details_Line = 1,
                details_Dependencies = DependenceOn s, details_References = ReferenceBy s\<rparr>"
proof -
  from assms obtain data where 1: "ReadFile h rstFile = Some data"
    by (auto simp: getSymbolDetails_def split: option.splits)
  with assms obtain r where 2: "Unmarshal h data = Some r"
    by (auto simp: getSymbolDetails_def split: option.splits)
  with assms 1 obtain doc where 3: "map_of (Documents r) filePath = Some doc"
    by (auto simp: getSymbolDetails_def split: option.splits)
  let ?P = "\<lambda>(symKey, s). let baseName = extractSymbolName symKey
              in baseName = query \<or> HasSuffix baseName (''.'' @ query)"
  from assms 1 2 3 obtain key s where 4: "find ?P (Symbols doc) = Some (key, s)"
    and d: "d = \<lparr>details_Name = extractSymbolName key, details_Kind = Kind s,
                details_FilePath = filePath, details_Line = 1,
                details_Dependencies = DependenceOn s, details_References = ReferenceBy s\<rparr>"
    by (auto simp: getSymbolDetails_def split: option.splits)
  from find_SomeD [OF 4] have "(key, s) \<in> set (Symbols doc)" "?P (key, s)"
    by simp_all
  then have "(key, s) \<in> set (Symbols doc)" "matchesExact query key \<or> matchesMember query key"
    by (simp_all add: matchesExact_def matchesMember_def Let_def)
  with 1 2 3 d show ?thesis by blast
qed

lemma getSymbolDetails_not_found:
  assumes "ReadFile h rstFile = Some data" "Unmarshal h data = Some r"
    "map_of (Documents r) filePath = Some doc"
  shows "getSymbolDetails h rstFile filePath query = Inl (SymbolNotFound query) \<longleftrightarrow>
         (\<forall>key\<in>fst ` set (Symbols doc). \<not> matchesExact query key \<and> \<not> matchesMember query key)"
proof -
  let ?P = "\<lambda>(symKey, s). let baseName = extractSymbolName symKey
              in baseName = query \<or> HasSuffix baseName (''.'' @ query)"
  have "getSymbolDetails h rstFile filePath query = Inl (SymbolNotFound query) \<longleftrightarrow>
        find ?P (Symbols doc) = None"
    using assms by (auto simp: getSymbolDetails_def split: option.splits)
  then show ?thesis by (simp only: find_cli_None)
qed

lemma searchDocuments_None:
  "searchDocuments filePath query line ds = None \<longleftrightarrow>
     (\<forall>(path, doc)\<in>set ds. filePath = '''' \<or> path = filePath \<longrightarrow>
        (\<forall>(key, s)\<in>set (Symbols doc).
           \<not> ((matchesExact query key \<or> matchesCall query key) \<and> (line = 0 \<or> sint (Line s) = line))))"
proof (induction ds)
  case Nil
  then show ?case by simp
next
  case (Cons pd ds)
  obtain path doc where pd: "pd = (path, doc)" by (cases pd)
  show ?case
  proof (cases "filePath \<noteq> '''' \<and> path \<noteq> filePath")
    case True
    then show ?thesis unfolding pd using Cons.IH by auto
  next
    case False
    let ?F = "find (\<lambda>(symKey, s). let baseName = extractSymbolName symKey
           in (baseName = query \<or> baseName = query @ ''()'') \<and>
              (line = 0 \<or> sint (Line s) = line)) (Symbols doc)"
    have "searchDocuments filePath query line ((path, doc) # ds) = None \<longleftrightarrow>
          ?F = None \<and> searchDocuments filePath query line ds = None"
      using False by (auto split: option.splits)
    then show ?thesis
      unfolding pd find_tui_None Cons.IH using False by auto
  qed
qed

lemma loadSymbolDetail_not_found:
  assumes "ReadFile h (Join h dir (repoToRSTFile repo)) = Some data" "Unmarshal h data = Some r"
  shows "loadSymbolDetail h dir repo filePath query line = errMsg (SymbolNotFound query) \<longleftrightarrow>
     (\<forall>(path, doc)\<in>set (Documents r). filePath = '''' \<or> path = filePath \<longrightarrow>
        (\<forall>(key, s)\<in>set (Symbols doc).
           \<not> ((matchesExact query key \<or> matchesCall query key) \<and> (line = 0 \<or> sint (Line s) = line))))"
proof -
  have "loadSymbolDetail h dir repo filePath query line = errMsg (SymbolNotFound query) \<longleftrightarrow>
        searchDocuments filePath query line (Documents r) = None"
    using assms by (auto simp: loadSymbolDetail_def Let_def split: option.splits)
  then show ?thesis by (simp only: searchDocuments_None)
qed


lemma ex_names:
  "extractSymbolName idFoo = ''Foo''"
  "extractSymbolName idInner = ''Outer.Inner''"
  "extractSymbolName idCall = ''Bar()''"
  by code_simp+

lemma ex_join: "Join queryHost ''idx'' (repoToRSTFile ''repo'') = ''idx/repo.go.rst''"
  by code_simp

lemma ex_read: "ReadFile queryHost ''idx/repo.go.rst'' = Some ''bytes''"
  by code_simp

lemma ex_unmarshal: "Unmarshal queryHost ''bytes'' = Some storedTable"
  by (simp add: queryHost_def)

lemma ex_doc:
  "map_of (Documents storedTable) ''a.go'' =
     Some \<lparr>RelativePath = ''a.go'',
            Symbols = [(idFoo, entryFoo), (idInner, entryInner), (idCall, entryCall)]\<rparr>"
  by (simp add: storedTable_def)

text \<open>
  Claim C3. A query operation should take a candidate id for a match of the name in
  three forms: the extracted name is the name, or the name followed by \<open>()\<close>, or it ends
  with a dot and the name. Each of the two operations tests two of the three:
  \<open>getSymbolDetails\<close> answers "symbol not found" exactly when no id of the file matches
  in the exact or the member form, so an id that matches only in the call form is not
  found; \<open>loadSymbolDetail\<close> answers "symbol not found" exactly when no id of the
  documents it searches matches in the exact or the call form (at the line asked for,
  if any), so an id that matches only in the member form is not found.
\<close>

theorem query_operations_check_two_forms:
  assumes "ReadFile h (Join h dir (repoToRSTFile repo)) = Some data"
    and "Unmarshal h data = Some r"
    and "map_of (Documents r) filePath = Some doc"
  shows "(getSymbolDetails h (Join h dir (repoToRSTFile repo)) filePath query =
            Inl (SymbolNotFound query) \<longleftrightarrow>
          (\<forall>key\<in>fst ` set (Symbols doc).
             \<not> matchesExact query key \<and> \<not> matchesMember query key)) \<and>
         (loadSymbolDetail h dir repo filePath query line = errMsg (SymbolNotFound query) \<longleftrightarrow>
          (\<forall>(path, doc)\<in>set (Documents r). filePath = '''' \<or> path = filePath \<longrightarrow>
             (\<forall>(key, s)\<in>set (Symbols doc).
                \<not> ((matchesExact query key \<or> matchesCall query key) \<and>
                   (line = 0 \<or> sint (Line s) = line)))))"
  using getSymbolDetails_not_found [OF assms] loadSymbolDetail_not_found [OF assms(1,2)]
  by (rule conjI)

theorem query_operations_check_two_forms_witness:
  "matchesMember ''Inner'' idInner \<and>
   loadSymbolDetail queryHost ''idx'' ''repo'' ''a.go'' ''Inner'' 0 =
     errMsg (SymbolNotFound ''Inner'') \<and>
   getSymbolDetails queryHost ''idx/repo.go.rst'' ''a.go'' ''Inner'' \<noteq>
     Inl (SymbolNotFound ''Inner'') \<and>
   matchesCall ''Bar'' idCall \<and>
   getSymbolDetails queryHost ''idx/repo.go.rst'' ''a.go'' ''Bar'' =
     Inl (SymbolNotFound ''Bar'') \<and>
   loadSymbolDetail queryHost ''idx'' ''repo'' ''a.go'' ''Bar'' 0 \<noteq>
     errMsg (SymbolNotFound ''Bar'')"
proof -
  note t = query_operations_check_two_forms
    [of queryHost "''idx''" "''repo''" "''bytes''" storedTable "''a.go''", unfolded ex_join,
     OF ex_read ex_unmarshal ex_doc]
  have m: "matchesMember ''Inner'' idInner" "matchesCall ''Bar'' idCall"
    by (simp_all add: matchesMember_def matchesCall_def ex_names HasSuffix_def suffix_to_prefix)
  have n: "\<not> matchesExact ''Inner'' idFoo" "\<not> matchesExact ''Inner'' idInner"
    "\<not> matchesExact ''Inner'' idCall" "\<not> matchesCall ''Inner'' idFoo"
    "\<not> matchesCall ''Inner'' idInner" "\<not> matchesCall ''Inner'' idCall"
    "\<not> matchesExact ''Bar'' idFoo" "\<not> matchesExact ''Bar'' idInner"
    "\<not> matchesExact ''Bar'' idCall" "\<not> matchesMember ''Bar'' idFoo"
    "\<not> matchesMember ''Bar'' idInner" "\<not> matchesMember ''Bar'' idCall"
    by (simp_all add: matchesExact_def matchesMember_def matchesCall_def ex_names HasSuffix_def
        suffix_to_prefix)
  have a: "loadSymbolDetail queryHost ''idx'' ''repo'' ''a.go'' ''Inner'' 0 =
     errMsg (SymbolNotFound ''Inner'')"
    using t [of "''Inner''" 0] n by (simp add: storedTable_def)
  have b: "getSymbolDetails queryHost ''idx/repo.go.rst'' ''a.go'' ''Inner'' \<noteq>
     Inl (SymbolNotFound ''Inner'')"
    using t [of "''Inner''" 0] m by simp
  have c: "getSymbolDetails queryHost ''idx/repo.go.rst'' ''a.go'' ''Bar'' =
     Inl (SymbolNotFound ''Bar'')"
    using t [of "''Bar''" 0] n by simp
  have d: "loadSymbolDetail queryHost ''idx'' ''repo'' ''a.go'' ''Bar'' 0 \<noteq>
     errMsg (SymbolNotFound ''Bar'')"
    using t [of "''Bar''" 0] m by (simp add: storedTable_def)
  from m a b c d show ?thesis by simp
qed

text \<open>
  Claim C4. The detail that \<open>getSymbolDetails\<close> returns for a matched symbol carries the
  kind, the dependencies and the references of the stored entry, and the name extracted
  from its id; its line is the constant 1, whatever line the entry stores. For the
  entry stored at line 10 the result says line 1, where \<open>loadSymbolDetail\<close> gives 10.
\<close>

theorem getSymbolDetails_line_constant:
  assumes "getSymbolDetails h rstFile filePath query = Inr d"
  shows "details_Line d = 1 \<and> details_FilePath d = filePath \<and>
         (\<exists>data r doc key s.
            ReadFile h rstFile = Some data \<and> Unmarshal h data = Some r \<and>
            map_of (Documents r) filePath = Some doc \<and> (key, s) \<in> set (Symbols doc) \<and>
            (matchesExact query key \<or> matchesMember query key) \<and>
            details_Name d = extractSymbolName key \<and> details_Kind d = Kind s \<and>
            details_Dependencies d = DependenceOn s \<and> details_References d = ReferenceBy s)"
proof -
  from getSymbolDetails_found [OF assms] obtain data r doc key s where
    "ReadFile h rstFile = Some data" "Unmarshal h data = Some r"
    "map_of (Documents r) filePath = Some doc" "(key, s) \<in> set (Symbols doc)"
    "matchesExact query key \<or> matchesMember query key"
    and d: "d = \<lparr>details_Name = extractSymbolName key, details_Kind = Kind s,
                details_FilePath = filePath, details_Line = 1,
                details_Dependencies = DependenceOn s, details_References = ReferenceBy s\<rparr>"
    by blast
  then show ?thesis by (simp add: d) blast
qed

theorem getSymbolDetails_line_constant_witness:
  "getSymbolDetails queryHost ''idx/repo.go.rst'' ''a.go'' ''Foo'' =
     Inr \<lparr>details_Name = ''Foo'', details_Kind = ''Function'', details_FilePath = ''a.go'',
          details_Line = 1, details_Dependencies = [idInner], details_References = [idCall]\<rparr> \<and>
   map_of (Symbols (the (map_of (Documents storedTable) ''a.go''))) idFoo = Some entryFoo \<and>
   sint (Line entryFoo) = 10 \<and>
   loadSymbolDetail queryHost ''idx'' ''repo'' ''a.go'' ''Foo'' 0 = symbolDetailMsg detailFoo \<and>
   sd_line detailFoo = 10"
proof -
  obtain d where e: "getSymbolDetails queryHost ''idx/repo.go.rst'' ''a.go'' ''Foo'' = Inr d"
    and d: "d = \<lparr>details_Name = ''Foo'', details_Kind = ''Function'', details_FilePath = ''a.go'',
          details_Line = 1, details_Dependencies = [idInner], details_References = [idCall]\<rparr>"
    by (simp add: getSymbolDetails_def ex_read ex_unmarshal ex_doc ex_names Let_def entryFoo_def)
  from getSymbolDetails_line_constant [OF e] have l: "details_Line d = 1"
    by (rule conjunct1)
  have s: "map_of (Symbols (the (map_of (Documents storedTable) ''a.go''))) idFoo = Some entryFoo"
    by (simp add: ex_doc)
  have n: "sint (Line entryFoo) = 10" "sd_line detailFoo = 10"
    by (simp_all add: entryFoo_def detailFoo_def)
  have t: "loadSymbolDetail queryHost ''idx'' ''repo'' ''a.go'' ''Foo'' 0 = symbolDetailMsg detailFoo"
    by (simp add: loadSymbolDetail_def ex_join ex_read ex_unmarshal storedTable_def ex_names
        Let_def entryFoo_def detailFoo_def)
  from e d l s n t show ?thesis by simp
qed
section \<open>Reading the written partitions\<close>

lemma sanitize_chars:
  "CHR ''.'' \<notin> set (sanitizeRepoID repo)" "CHR ''/'' \<notin> set (sanitizeRepoID repo)"
  by (auto simp: sanitize_map)

lemma TrimSuffix_append: "TrimSuffix (s @ p) p = s"
  by (simp add: TrimSuffix_def HasSuffix_def suffix_def)

lemma browser_map:
  "repoToRSTFile (rstFileToRepoName fileName) =
     map (\<lambda>c. if c = CHR ''_'' \<or> c = CHR ''.'' \<or> c = CHR ''/'' then CHR ''_'' else c)
       (TrimSuffix fileName ''.go.rst'') @ ''.go.rst''"
  by (simp add: reader_map rstFileToRepoName_def ReplaceAll_def Let_def)

lemma round_trip_go:
  "repoToRSTFile (rstFileToRepoName (rstFilename repo ''go'')) = rstFilename repo ''go''"
proof -
  have e: "rstFilename repo ''go'' = sanitizeRepoID repo @ ''.go.rst''"
    by (simp add: rstFilename_def)
  have "map (\<lambda>c. if c = CHR ''_'' \<or> c = CHR ''.'' \<or> c = CHR ''/'' then CHR ''_'' else c)
          (sanitizeRepoID repo) = sanitizeRepoID repo"
    using sanitize_chars [of repo] by (intro map_idI) auto
  then show ?thesis
    unfolding browser_map e TrimSuffix_append by simp
qed

lemma round_trip_other:
  assumes "lang \<noteq> ''go''"
  shows "repoToRSTFile (rstFileToRepoName (rstFilename repo lang)) \<noteq> rstFilename repo lang"
proof
  let ?g = "\<lambda>c. if c = CHR ''_'' \<or> c = CHR ''.'' \<or> c = CHR ''/'' then CHR ''_'' else c"
  let ?T = "TrimSuffix (rstFilename repo lang) ''.go.rst''"
  assume "repoToRSTFile (rstFileToRepoName (rstFilename repo lang)) = rstFilename repo lang"
  then have "map ?g ?T @ CHR ''.'' # ''go.rst'' =
             sanitizeRepoID repo @ CHR ''.'' # (lang @ ''.rst'')"
    by (simp add: browser_map [symmetric] rstFilename_def)
  moreover have "CHR ''.'' \<notin> set (map ?g ?T)" by auto
  moreover have "CHR ''.'' \<notin> set (sanitizeRepoID repo)" by (rule sanitize_chars)
  ultimately have "map ?g ?T = sanitizeRepoID repo \<and> ''go.rst'' = lang @ ''.rst''"
    by (rule split_at_dot [rotated 2])
  then have "lang @ ''.rst'' = ''go'' @ ''.rst''" by simp
  then have "lang = ''go''" by (simp only: append_same_eq)
  with assms show False by simp
qed

lemma loadRepos_lists:
  assumes "ReadDir h dir = Some es"
    and "\<lparr>entry_Name = name, entry_IsDir = False\<rparr> \<in> set es"
    and "HasSuffix name ''.rst''"
  shows "\<exists>items. loadRepos h dir = reposLoadedMsg items \<and>
                 repoItem (rstFileToRepoName name) \<in> set items"
proof -
  let ?e = "\<lparr>entry_Name = name, entry_IsDir = False\<rparr>"
  let ?keep = "filter (\<lambda>e. \<not> entry_IsDir e \<and> HasSuffix (entry_Name e) ''.rst'') es"
  from assms(2,3) have "?e \<in> set ?keep" by simp
  then have "repoItem (rstFileToRepoName (entry_Name ?e)) \<in>
               set (map (\<lambda>e. repoItem (rstFileToRepoName (entry_Name e))) ?keep)"
    by (rule imageI [of ?e "set ?keep" "\<lambda>e. repoItem (rstFileToRepoName (entry_Name e))",
          unfolded set_map [symmetric]])
  then show ?thesis using assms(1) by (simp add: loadRepos_def)
qed

lemma rstFilename_suffix: "HasSuffix (rstFilename repo lang) ''.rst''"
  by (simp add: rstFilename_def HasSuffix_def suffix_def)

lemma ex_scheme_names:
  "rstFilename ''git@host:a-b'' ''go'' = ''host_a_b.go.rst''"
  "rstFilename ''git@host:a-b'' ''python'' = ''host_a_b.python.rst''"
  "repoToRSTFile ''git@host:a-b'' = ''git@host:a-b.go.rst''"
  "rstFileToRepoName ''host_a_b.go.rst'' = ''host.a.b''"
  "repoToRSTFile ''host.a.b'' = ''host_a_b.go.rst''"
  "rstFilename ''repo'' ''go'' = ''repo.go.rst''"
  "rstFilename ''repo'' ''python'' = ''repo.python.rst''"
  "repoToRSTFile ''repo'' = ''repo.go.rst''"
  by code_simp+

text \<open>
  Claim C9. The file name the readers compute from a repository id (\<open>repoToRSTFile\<close> in
  the browser, the same renaming in \<open>findRSTFileByRepo\<close>: only \<open>.\<close> and \<open>/\<close> replaced,
  \<open>.go.rst\<close> appended) equals the name \<open>parseMain\<close> writes for a partition exactly when
  the partition's language is \<open>go\<close> and the id is benign: no scheme prefix, no \<open>:\<close> and
  no \<open>-\<close>. For an id with \<open>:\<close>, \<open>-\<close> or a scheme prefix, and for a partition of another
  language, the two names differ. \<open>findRSTFileByRepo\<close> returns the readers' path when a
  file exists there and the empty string when none does. The browser does not start
  from the id: \<open>loadRepos\<close> makes its repository names from the file names of the
  directory with \<open>rstFileToRepoName\<close>, and for the file of a Go partition, whatever the
  id, \<open>repoToRSTFile\<close> of that name is the file's name again; for the file of a
  partition of another language it is another name.
\<close>

theorem reader_writer_names:
  "(repoToRSTFile repo = rstFilename repo lang \<longleftrightarrow> lang = ''go'' \<and> benign repo) \<and>
   ((lang \<noteq> ''go'' \<or> CHR '':'' \<in> set repo \<or> CHR ''-'' \<in> set repo \<or>
     HasPrefix repo ''https://'' \<or> HasPrefix repo ''http://'' \<or> HasPrefix repo ''git@'') \<longrightarrow>
    repoToRSTFile repo \<noteq> rstFilename repo lang) \<and>
   findRSTFileByRepo h outputDir repo =
     (if Stat h (Join h outputDir (repoToRSTFile repo))
      then Join h outputDir (repoToRSTFile repo) else '''') \<and>
   repoToRSTFile (rstFileToRepoName (rstFilename repo ''go'')) = rstFilename repo ''go'' \<and>
   (lang \<noteq> ''go'' \<longrightarrow>
      repoToRSTFile (rstFileToRepoName (rstFilename repo lang)) \<noteq> rstFilename repo lang) \<and>
   (ReadDir h outputDir = Some es \<and>
    \<lparr>entry_Name = rstFilename repo lang, entry_IsDir = False\<rparr> \<in> set es \<longrightarrow>
      (\<exists>items. loadRepos h outputDir = reposLoadedMsg items \<and>
         repoItem (rstFileToRepoName (rstFilename repo lang)) \<in> set items))"
proof (intro conjI impI)
  show "repoToRSTFile repo = rstFilename repo lang \<longleftrightarrow> lang = ''go'' \<and> benign repo"
    by (rule names_agree_iff)
  show "findRSTFileByRepo h outputDir repo =
     (if Stat h (Join h outputDir (repoToRSTFile repo))
      then Join h outputDir (repoToRSTFile repo) else '''')"
    by (rule findRSTFileByRepo_stat)
  show "repoToRSTFile (rstFileToRepoName (rstFilename repo ''go'')) = rstFilename repo ''go''"
    by (rule round_trip_go)
next
  assume "lang \<noteq> ''go'' \<or> CHR '':'' \<in> set repo \<or> CHR ''-'' \<in> set repo \<or>
     HasPrefix repo ''https://'' \<or> HasPrefix repo ''http://'' \<or> HasPrefix repo ''git@''"
  then have "\<not> (lang = ''go'' \<and> benign repo)" by (auto simp: benign_def)
  then show "repoToRSTFile repo \<noteq> rstFilename repo lang"
    by (simp only: names_agree_iff not_False_eq_True)
next
  assume "lang \<noteq> ''go''"
  then show "repoToRSTFile (rstFileToRepoName (rstFilename repo lang)) \<noteq> rstFilename repo lang"
    by (rule round_trip_other)
next
  assume "ReadDir h outputDir = Some es \<and>
    \<lparr>entry_Name = rstFilename repo lang, entry_IsDir = False\<rparr> \<in> set es"
  then show "\<exists>items. loadRepos h outputDir = reposLoadedMsg items \<and>
         repoItem (rstFileToRepoName (rstFilename repo lang)) \<in> set items"
    using loadRepos_lists [OF _ _ rstFilename_suffix] by blast
qed

theorem reader_writer_names_witness:
  "repoToRSTFile ''git@host:a-b'' \<noteq> rstFilename ''git@host:a-b'' ''go'' \<and>
   findRSTFileByRepo schemeHost ''out'' ''git@host:a-b'' = '''' \<and>
   repoToRSTFile (rstFileToRepoName ''host_a_b.go.rst'') = ''host_a_b.go.rst'' \<and>
   repoToRSTFile (rstFileToRepoName ''repo.python.rst'') \<noteq> ''repo.python.rst'' \<and>
   loadRepos schemeHost ''out'' = reposLoadedMsg [repoItem ''host.a.b'']"
proof -
  note t = reader_writer_names [of "''git@host:a-b''" "''go''" schemeHost "''out''"
      "[\<lparr>entry_Name = ''host_a_b.go.rst'', entry_IsDir = False\<rparr>]"]
  note u = reader_writer_names [of "''repo''" "''python''" schemeHost "''out''" "[]"]
  have p: "HasPrefix ''git@host:a-b'' ''git@''" by (simp add: HasPrefix_def)
  from t p have a: "repoToRSTFile ''git@host:a-b'' \<noteq> rstFilename ''git@host:a-b'' ''go''"
    by blast
  have "\<not> Stat schemeHost (Join schemeHost ''out'' (repoToRSTFile ''git@host:a-b''))"
    by (simp add: ex_scheme_names schemeHost_def)
  with t have b: "findRSTFileByRepo schemeHost ''out'' ''git@host:a-b'' = ''''"
    by simp
  from t have c: "repoToRSTFile (rstFileToRepoName ''host_a_b.go.rst'') = ''host_a_b.go.rst''"
    by (simp add: ex_scheme_names)
  from u have d: "repoToRSTFile (rstFileToRepoName ''repo.python.rst'') \<noteq> ''repo.python.rst''"
    by (simp add: ex_scheme_names)
  have r: "ReadDir schemeHost ''out'' =
      Some [\<lparr>entry_Name = ''host_a_b.go.rst'', entry_IsDir = False\<rparr>]"
    by (simp add: schemeHost_def)
  from t r obtain items where "loadRepos schemeHost ''out'' = reposLoadedMsg items"
    "repoItem (rstFileToRepoName (rstFilename ''git@host:a-b'' ''go'')) \<in> set items"
    by (auto simp: ex_scheme_names)
  moreover have "loadRepos schemeHost ''out'' = reposLoadedMsg [repoItem ''host.a.b'']"
    by (simp add: loadRepos_def r ex_scheme_names HasSuffix_def suffix_to_prefix)
  ultimately have e: "loadRepos schemeHost ''out'' = reposLoadedMsg [repoItem ''host.a.b'']"
    by simp
  from a b c d e show ?thesis by simp
qed

theorem lookup_succeeds_counterexample:
  "HasPrefix ''git@host:a-b'' ''git@'' \<and> CHR '':'' \<in> set ''git@host:a-b'' \<and>
   CHR ''-'' \<in> set ''git@host:a-b'' \<and>
   rstFilename ''git@host:a-b'' ''go'' = ''host_a_b.go.rst'' \<and>
   repoToRSTFile ''git@host:a-b'' \<noteq> rstFilename ''git@host:a-b'' ''go'' \<and>
   loadRepos schemeHost ''out'' = reposLoadedMsg [repoItem ''host.a.b''] \<and>
   Join schemeHost ''out'' (repoToRSTFile ''host.a.b'') = ''out/host_a_b.go.rst'' \<and>
   loadSymbolDetail schemeHost ''out'' ''host.a.b'' ''a.go'' ''Foo'' 0 = symbolDetailMsg detailFoo \<and>
   rstFilename ''repo'' ''python'' = ''repo.python.rst'' \<and>
   repoToRSTFile ''repo'' \<noteq> rstFilename ''repo'' ''python'' \<and>
   findRSTFileByRepo twoPartitionHost ''out'' ''repo'' = ''out/repo.go.rst''"
proof -
  have a: "HasPrefix ''git@host:a-b'' ''git@''" "CHR '':'' \<in> set ''git@host:a-b''"
    "CHR ''-'' \<in> set ''git@host:a-b''"
    by (simp_all add: HasPrefix_def)
  have b: "loadRepos schemeHost ''out'' = reposLoadedMsg [repoItem ''host.a.b'']"
    by (simp add: loadRepos_def schemeHost_def ex_scheme_names HasSuffix_def suffix_to_prefix)
  have c: "Join schemeHost ''out'' (repoToRSTFile ''host.a.b'') = ''out/host_a_b.go.rst''"
    by (simp add: ex_scheme_names schemeHost_def)
  have d: "loadSymbolDetail schemeHost ''out'' ''host.a.b'' ''a.go'' ''Foo'' 0 =
      symbolDetailMsg detailFoo"
    unfolding loadSymbolDetail_def c Let_def
    by (simp add: schemeHost_def storedTable_def ex_names entryFoo_def detailFoo_def)
  have e: "findRSTFileByRepo twoPartitionHost ''out'' ''repo'' = ''out/repo.go.rst''"
    by (simp add: findRSTFileByRepo_stat ex_scheme_names twoPartitionHost_def)
  from a b c d e show ?thesis by (simp add: ex_scheme_names)
qed
section \<open>Jumping in the symbol page\<close>









end
